theory Spec2Isabelle
  imports Main "HOL-Library.Word" "HOL-Library.Char_ord" "HOL-Library.List_Lexorder"
begin

section \<open>Python strings and number formatting\<close>

text \<open>
  Python \<open>str\<close> values are modelled as \<open>string\<close>, \<open>bytes\<close> as lists of 8-bit words,
  Python integers as \<open>int\<close> (or \<open>nat\<close> where the source only produces non-negative
  values: company identifiers, offsets, lengths, clock fields).
\<close>

type_synonym byte = "8 word"

definition endswith :: "string \<Rightarrow> string \<Rightarrow> bool" where
  "endswith s suf = (length suf \<le> length s \<and> drop (length s - length suf) s = suf)"

definition startswith :: "string \<Rightarrow> string \<Rightarrow> bool" where
  "startswith s pre = (take (length pre) s = pre)"

text \<open>\<open>s.split(c)\<close> for a one-character separator: never empty, one more part than separators.\<close>

fun split_on :: "char \<Rightarrow> string \<Rightarrow> string list" where
  "split_on c [] = [[]]"
| "split_on c (x # xs) =
     (if x = c then [] # split_on c xs
      else (case split_on c xs of [] \<Rightarrow> [[x]] | p # ps \<Rightarrow> (x # p) # ps))"

text \<open>\<open>sep.join(xs)\<close>.\<close>

fun py_join :: "string \<Rightarrow> string list \<Rightarrow> string" where
  "py_join sep [] = []"
| "py_join sep [x] = x"
| "py_join sep (x # y # ys) = x @ sep @ py_join sep (y # ys)"

definition hex_digit :: "nat \<Rightarrow> char" where
  "hex_digit d = ''0123456789ABCDEF'' ! d"

function to_hex :: "nat \<Rightarrow> string" where
  "to_hex n = (if n < 16 then [hex_digit n] else to_hex (n div 16) @ [hex_digit (n mod 16)])"
  by pat_completeness auto
termination
  by (relation "measure id") auto

declare to_hex.simps [simp del]

function to_dec :: "nat \<Rightarrow> string" where
  "to_dec n = (if n < 10 then [hex_digit n] else to_dec (n div 10) @ [hex_digit (n mod 10)])"
  by pat_completeness auto
termination
  by (relation "measure id") auto

declare to_dec.simps [simp del]

text \<open>Zero padding to a minimum width, as the format specifications \<open>04X\<close>, \<open>02X\<close> do.\<close>

definition zfill :: "nat \<Rightarrow> string \<Rightarrow> string" where
  "zfill w s = replicate (w - length s) CHR ''0'' @ s"

definition fmt_04X :: "nat \<Rightarrow> string" where
  "fmt_04X n = zfill 4 (to_hex n)"

definition fmt_02X :: "nat \<Rightarrow> string" where
  "fmt_02X n = zfill 2 (to_hex n)"

definition fmt_02d :: "nat \<Rightarrow> string" where
  "fmt_02d n = zfill 2 (to_dec n)"


text \<open>\<open>str(i)\<close> for an integer.\<close>

definition str_int :: "int \<Rightarrow> string" where
  "str_int i = (if i < 0 then CHR ''-'' # to_dec (nat (- i)) else to_dec (nat i))"

text \<open>\<open>data.hex().upper()\<close>: two uppercase hex digits per byte.\<close>

definition hex_upper :: "byte list \<Rightarrow> string" where
  "hex_upper bs = concat (map (\<lambda>b. fmt_02X (unat b)) bs)"

text \<open>
  A Python \<open>dict\<close> keeps insertion order, and assigning to a key that is present replaces
  the value where the key stands: an association list with \<open>dict_set\<close>.
\<close>

fun dict_set :: "'k \<Rightarrow> 'v \<Rightarrow> ('k \<times> 'v) list \<Rightarrow> ('k \<times> 'v) list" where
  "dict_set k v [] = [(k, v)]"
| "dict_set k v (p # d) = (if fst p = k then (fst p, v) # d else p # dict_set k v d)"

section \<open>The clock\<close>

record datetime =
  dt_year :: nat
  dt_month :: nat
  dt_day :: nat
  dt_hour :: nat
  dt_minute :: nat
  dt_second :: nat
  dt_microsecond :: nat

text \<open>
  \<open>strftime("%H:%M:%S")\<close> and \<open>strftime("%Y%m%d_%H%M%S")\<close>. \<open>%Y\<close> is written with four
  digits, as every platform does for the years from 1000 on (below that the C libraries
  differ in padding); the theorems about the file name assume such a year.
\<close>

definition strftime_HMS :: "datetime \<Rightarrow> string" where
  "strftime_HMS t = fmt_02d (dt_hour t) @ '':'' @ fmt_02d (dt_minute t) @ '':'' @ fmt_02d (dt_second t)"


section \<open>Raw advertisement events and decoded records\<close>

record ble_device =
  dev_address :: string
  dev_name :: "string option"

text \<open>
  \<open>adv_rssi\<close> is \<open>None\<close> when the advertisement object has no \<open>rssi\<close> attribute
  (\<open>getattr\<close> then gives \<open>'N/A'\<close>); numeric readings are integers.
\<close>

record advertisement_data =
  adv_local_name :: "string option"
  adv_manufacturer_data :: "(nat \<times> byte list) list"
  adv_service_data :: "(string \<times> byte list) list"
  adv_service_uuids :: "string list"
  adv_tx_power :: "int option"
  adv_rssi :: "int option"
  adv_platform_data :: string

record raw_data =
  raw_manufacturer_data :: "(nat \<times> byte list) list"
  raw_service_data :: "(string \<times> string option) list"
  raw_tx_power :: "int option"
  raw_platform_data :: string

record device_info =
  address :: string
  name :: string
  manufacturer :: string
  manufacturer_id :: string
  service_uuids :: string
  service_data :: string
  rssi :: int
  last_seen :: string
  raw_data :: raw_data

datatype exn = Exn (exn_type: string) (exn_msg: string)

section \<open>UUID conversion\<close>

text \<open>
  The conversion both scanners apply to every UUID (\<open>ble_adv_scanner.py\<close> lines 157-166 and
  177-184, \<open>ble_basic_scanner.py\<close> lines 158-167). \<open>parts[0]\<close> is only read when there are
  five parts.
\<close>

definition sig_base_suffix :: string where
  "sig_base_suffix = ''-0000-1000-8000-00805f9b34fb''"

definition convert_uuid :: "string \<Rightarrow> string" where
  "convert_uuid uuid =
     (if length uuid = 36 \<and> endswith uuid sig_base_suffix then
        (let parts = split_on CHR ''-'' uuid in
         if length parts = 5 \<and> startswith (parts ! 0) ''0000'' then drop 4 (parts ! 0)
         else uuid)
      else uuid)"

section \<open>The decoders\<close>

text \<open>
  \<open>get_manufacturer_name\<close> lives in the module \<open>manufacturer_ids\<close>, which is not part of the
  sources at hand: the registry is a parameter \<open>reg\<close>, and it may raise.
\<close>

type_synonym registry = "nat \<Rightarrow> exn + string"

definition lookup_manufacturer :: "registry \<Rightarrow> (nat \<times> byte list) list \<Rightarrow> exn + (string \<times> nat option)" where
  "lookup_manufacturer reg md =
     (case md of
        [] \<Rightarrow> Inr ('''', None)
      | p # _ \<Rightarrow>
          (case reg (fst p) of
             Inl e \<Rightarrow> Inl e
           | Inr nm \<Rightarrow>
               Inr (if startswith nm ''Unknown'' then ''0x'' @ fmt_04X (fst p) else nm,
                    Some (fst p))))"

text \<open>\<open>f"0x{manufacturer_id:04X}" if manufacturer_id else ""\<close>: \<open>None\<close> and \<open>0\<close> are both falsy.\<close>

definition manufacturer_id_field :: "nat option \<Rightarrow> string" where
  "manufacturer_id_field m =
     (case m of None \<Rightarrow> '''' | Some k \<Rightarrow> if k \<noteq> 0 then ''0x'' @ fmt_04X k else '''')"

text \<open>\<open>device.name or advertisement_data.local_name or ""\<close>.\<close>

definition name_field :: "string option \<Rightarrow> string option \<Rightarrow> string" where
  "name_field dn ln =
     (case dn of
        Some n \<Rightarrow> if n \<noteq> [] then n else (case ln of Some l \<Rightarrow> l | None \<Rightarrow> [])
      | None \<Rightarrow> (case ln of Some l \<Rightarrow> l | None \<Rightarrow> []))"

text \<open>
  \<open>rssi = getattr(advertisement_data, 'rssi', 'N/A')\<close>, then \<open>max(rssi, -99)\<close> for a number,
  then \<open>int(rssi) if rssi != 'N/A' else -999\<close>.
\<close>

definition rssi_field :: "int option \<Rightarrow> int" where
  "rssi_field r = (case r of Some v \<Rightarrow> max v (- 99) | None \<Rightarrow> - 999)"

text \<open>The loop over \<open>service_data.items()\<close> of \<open>process_device\<close> (lines 174-191).\<close>

definition service_data_step ::
  "string list \<times> (string \<times> string option) list \<Rightarrow> string \<times> byte list \<Rightarrow>
   string list \<times> (string \<times> string option) list" where
  "service_data_step acc item =
     (let uuid_display = convert_uuid (fst item); hex_data = hex_upper (snd item)
      in (fst acc @ [uuid_display @ [CHR 0x0A] @ ''data: '' @ hex_data],
          dict_set uuid_display (Some hex_data) (snd acc)))"

text \<open>The body of the \<open>try\<close> of \<open>BLEScannerWorker.process_device\<close> (\<open>ble_adv_scanner.py\<close>).\<close>

definition process_device_body ::
  "registry \<Rightarrow> datetime \<Rightarrow> ble_device \<Rightarrow> advertisement_data \<Rightarrow> exn + device_info" where
  "process_device_body reg now device adv =
     (case lookup_manufacturer reg (adv_manufacturer_data adv) of
        Inl e \<Rightarrow> Inl e
      | Inr m \<Rightarrow>
          (let converted_service_uuids = map convert_uuid (adv_service_uuids adv);
               sd = foldl service_data_step ([], []) (adv_service_data adv)
           in Inr \<lparr> address = dev_address device,
                    name = name_field (dev_name device) (adv_local_name adv),
                    manufacturer = fst m,
                    manufacturer_id = manufacturer_id_field (snd m),
                    service_uuids = py_join [CHR 0x0A] converted_service_uuids,
                    service_data = py_join [CHR 0x0A, CHR 0x0A] (fst sd),
                    rssi = rssi_field (adv_rssi adv),
                    last_seen = strftime_HMS now,
                    raw_data = \<lparr> raw_manufacturer_data = adv_manufacturer_data adv,
                                 raw_service_data = snd sd,
                                 raw_tx_power = adv_tx_power adv,
                                 raw_platform_data = adv_platform_data adv \<rparr> \<rparr>))"

text \<open>
  The body of the \<open>try\<close> of \<open>BLEScannerWorker.detection_callback\<close>
  (\<open>ble_basic_scanner.py\<close>). \<open>list(set(...))\<close> gives the elements once each in an order the
  language does not fix: the enumeration is the parameter \<open>enum\<close>.
\<close>

definition service_data_string :: "(string \<times> byte list) list \<Rightarrow> string \<Rightarrow> string" where
  "service_data_string sd uuid =
     (case map_of sd uuid of Some d \<Rightarrow> hex_upper d | None \<Rightarrow> ''null'')"

definition enhanced_step ::
  "(string \<times> byte list) list \<Rightarrow> (string \<times> string option) list \<Rightarrow> string \<Rightarrow>
   (string \<times> string option) list" where
  "enhanced_step sd acc uuid = dict_set uuid (map_option hex_upper (map_of sd uuid)) acc"

definition detection_callback_body ::
  "(string list \<Rightarrow> string list) \<Rightarrow> registry \<Rightarrow> datetime \<Rightarrow> ble_device \<Rightarrow>
   advertisement_data \<Rightarrow> exn + device_info" where
  "detection_callback_body enum reg now device adv =
     (case lookup_manufacturer reg (adv_manufacturer_data adv) of
        Inl e \<Rightarrow> Inl e
      | Inr m \<Rightarrow>
          (let service_data_uuids = map fst (adv_service_data adv);
               all_service_uuids = enum (adv_service_uuids adv @ service_data_uuids);
               converted_uuids = map convert_uuid all_service_uuids;
               service_data_strings = map (service_data_string (adv_service_data adv)) all_service_uuids;
               enhanced_service_data = foldl (enhanced_step (adv_service_data adv)) [] all_service_uuids
           in Inr \<lparr> address = dev_address device,
                    name = name_field (dev_name device) (adv_local_name adv),
                    manufacturer = fst m,
                    manufacturer_id = manufacturer_id_field (snd m),
                    service_uuids = py_join [CHR 0x0A] converted_uuids,
                    service_data = py_join [CHR 0x0A] service_data_strings,
                    rssi = rssi_field (adv_rssi adv),
                    last_seen = strftime_HMS now,
                    raw_data = \<lparr> raw_manufacturer_data = adv_manufacturer_data adv,
                                 raw_service_data = enhanced_service_data,
                                 raw_tx_power = adv_tx_power adv,
                                 raw_platform_data = adv_platform_data adv \<rparr> \<rparr>))"

section \<open>The scan loop and the error handler\<close>

datatype signal = DeviceFound device_info | ErrorOccurred string | ScanStarted | ScanStopped

datatype effect = Emit signal | Print string

fun emitted :: "effect list \<Rightarrow> signal list" where
  "emitted [] = []"
| "emitted (Emit s # es) = s # emitted es"
| "emitted (Print _ # es) = emitted es"

text \<open>
  \<open>get_detailed_error_info(error, context)\<close>. The output of \<open>get_system_info()\<close> (the
  platform probe) and of \<open>traceback.format_exc()\<close> come from the environment: the
  parameters \<open>system_info\<close> and \<open>format_exc\<close>.
\<close>

definition get_detailed_error_info :: "string \<Rightarrow> (exn \<Rightarrow> string) \<Rightarrow> exn \<Rightarrow> string \<Rightarrow> string" where
  "get_detailed_error_info system_info format_exc error ctxt =
     py_join [CHR 0x0A]
       [''=== DETAILED ERROR INFORMATION ==='',
        ''Error Type: '' @ exn_type error,
        ''Error Message: '' @ exn_msg error,
        ''Context: '' @ ctxt,
        [],
        ''=== STACK TRACE ==='',
        format_exc error,
        [],
        system_info]"

definition see_terminal :: string where
  "see_terminal = [CHR 0x0A, CHR 0x0A] @ ''See terminal for detailed error information.''"

text \<open>\<open>BLEScannerWorker.process_device\<close>: the \<open>try\<close> body and its \<open>except Exception\<close> handler.\<close>

definition process_device ::
  "string \<Rightarrow> (exn \<Rightarrow> string) \<Rightarrow> registry \<Rightarrow> datetime \<Rightarrow> ble_device \<Rightarrow> advertisement_data \<Rightarrow>
   effect list" where
  "process_device system_info format_exc reg now device adv =
     (case process_device_body reg now device adv of
        Inr info \<Rightarrow> [Emit (DeviceFound info)]
      | Inl e \<Rightarrow>
          [Print (''BLE DEVICE PROCESSING ERROR (Terminal):'' @ [CHR 0x0A] @
                  get_detailed_error_info system_info format_exc e
                    (''BLE Scanner Worker - process_device for device '' @ dev_address device)),
           Emit (ErrorOccurred
                  (''Error processing device '' @ dev_address device @ '': '' @ exn_msg e @
                   see_terminal))])"

text \<open>\<open>BLEScannerWorker.detection_callback\<close> of the callback scanner, likewise.\<close>

definition detection_callback ::
  "string \<Rightarrow> (exn \<Rightarrow> string) \<Rightarrow> (string list \<Rightarrow> string list) \<Rightarrow> registry \<Rightarrow> datetime \<Rightarrow>
   ble_device \<Rightarrow> advertisement_data \<Rightarrow> effect list" where
  "detection_callback system_info format_exc enum reg now device adv =
     (case detection_callback_body enum reg now device adv of
        Inr info \<Rightarrow> [Emit (DeviceFound info)]
      | Inl e \<Rightarrow>
          [Print (''BLE DEVICE PROCESSING ERROR (Terminal):'' @ [CHR 0x0A] @
                  get_detailed_error_info system_info format_exc e
                    (''BLE Scanner Worker - detection_callback for device '' @ dev_address device)),
           Emit (ErrorOccurred
                  (''Error processing device '' @ dev_address device @ '': '' @ exn_msg e @
                   see_terminal))])"

text \<open>
  One item of the asynchronous iterator \<open>scanner.advertisement_data()\<close>, with the value of
  \<open>self.is_scanning\<close> read at that iteration (\<open>stop_scanning\<close> clears it from another
  thread) and the clock reading at decode.
\<close>

record adv_event =
  ev_scanning :: bool
  ev_now :: datetime
  ev_device :: ble_device
  ev_adv :: advertisement_data

fun scan_loop ::
  "string \<Rightarrow> (exn \<Rightarrow> string) \<Rightarrow> registry \<Rightarrow> adv_event list \<Rightarrow> effect list" where
  "scan_loop system_info format_exc reg [] = []"
| "scan_loop system_info format_exc reg (ev # rest) =
     (if \<not> ev_scanning ev then []
      else process_device system_info format_exc reg (ev_now ev) (ev_device ev) (ev_adv ev) @
           scan_loop system_info format_exc reg rest)"

text \<open>
  \<open>BLEScannerWorker.start_scanning\<close> (\<open>ble_adv_scanner.py\<close>): \<open>startup\<close> is the exception
  raised on entering \<open>BleakScanner()\<close>, if any.
\<close>

definition start_scanning ::
  "string \<Rightarrow> (exn \<Rightarrow> string) \<Rightarrow> registry \<Rightarrow> exn option \<Rightarrow> adv_event list \<Rightarrow> effect list" where
  "start_scanning system_info format_exc reg startup stream =
     Emit ScanStarted #
     (case startup of
        None \<Rightarrow> scan_loop system_info format_exc reg stream
      | Some e \<Rightarrow>
          [Print (''BLE SCANNER ERROR (Terminal):'' @ [CHR 0x0A] @
                  get_detailed_error_info system_info format_exc e
                    ''BLE Scanner Worker - start_scanning''),
           Emit (ErrorOccurred (''Scanning error: '' @ exn_msg e @ see_terminal))]) @
     [Emit ScanStopped]"

section \<open>The hex dump\<close>









section \<open>The table widget\<close>

text \<open>
  \<open>self.table\<close> is a \<open>QTableWidget\<close> with seven columns on which \<open>init_ui\<close> calls
  \<open>setSortingEnabled(True)\<close> (\<open>ble_adv_scanner.py\<close> line 528, \<open>ble_basic_scanner.py\<close> line
  525); sorting is never switched off. The widget belongs to Qt, not to these sources; it
  is modelled as Qt documents and implements it. Enabling sorting sorts by the header's
  sort indicator, which is column 0 in descending order until the user clicks a header.
  From then on \<open>setItem\<close> on a cell of the sort column moves the whole row to its place in
  that order (which is why Qt's documentation tells callers to switch sorting off before
  setting several items of a row with one row number).

  A cell holds an item or nothing. An item has a display text and user data.
\<close>

record table_item =
  display_role :: string
  user_role :: "int option"

record table_row =
  col_address :: "table_item option"
  col_name :: "table_item option"
  col_manufacturer :: "table_item option"
  col_service_uuids :: "table_item option"
  col_service_data :: "table_item option"
  col_rssi :: "table_item option"
  col_last_seen :: "table_item option"

type_synonym table_widget = "table_row list"

definition empty_row :: table_row where
  "empty_row =
     \<lparr> col_address = None, col_name = None, col_manufacturer = None, col_service_uuids = None,
       col_service_data = None, col_rssi = None, col_last_seen = None \<rparr>"

definition cell :: "nat \<Rightarrow> table_row \<Rightarrow> table_item option" where
  "cell col r =
     (if col = 0 then col_address r else if col = 1 then col_name r
      else if col = 2 then col_manufacturer r else if col = 3 then col_service_uuids r
      else if col = 4 then col_service_data r else if col = 5 then col_rssi r
      else if col = 6 then col_last_seen r else None)"

definition set_cell :: "nat \<Rightarrow> table_item \<Rightarrow> table_row \<Rightarrow> table_row" where
  "set_cell col it r =
     (if col = 0 then r\<lparr>col_address := Some it\<rparr>
      else if col = 1 then r\<lparr>col_name := Some it\<rparr>
      else if col = 2 then r\<lparr>col_manufacturer := Some it\<rparr>
      else if col = 3 then r\<lparr>col_service_uuids := Some it\<rparr>
      else if col = 4 then r\<lparr>col_service_data := Some it\<rparr>
      else if col = 5 then r\<lparr>col_rssi := Some it\<rparr>
      else if col = 6 then r\<lparr>col_last_seen := Some it\<rparr>
      else r)"

text \<open>\<open>table.insertRow(row)\<close>: a row of empty cells at that position.\<close>

definition insertRow :: "nat \<Rightarrow> table_widget \<Rightarrow> table_widget" where
  "insertRow row t = (if row \<le> length t then take row t @ [empty_row] @ drop row t else t)"

definition remove_at :: "nat \<Rightarrow> 'a list \<Rightarrow> 'a list" where
  "remove_at i xs = take i xs @ drop (Suc i) xs"

definition insert_at :: "nat \<Rightarrow> 'a \<Rightarrow> 'a list \<Rightarrow> 'a list" where
  "insert_at i x xs = take i xs @ [x] @ drop i xs"

text \<open>
  The items of a column from the top down to the first empty cell (in a sorted column the
  empty cells are at the end), and the row at which an item belongs among them in
  descending order of the display texts: the first position whose item is not greater,
  what \<open>std::lower_bound\<close> finds in a column that is sorted. Texts compare as strings do,
  character code by character code.
\<close>

definition columnItems :: "nat \<Rightarrow> table_widget \<Rightarrow> table_item list" where
  "columnItems col t = map the (takeWhile (\<lambda>c. c \<noteq> None) (map (cell col) t))"

definition sortedInsertionRow :: "table_item \<Rightarrow> table_item list \<Rightarrow> nat" where
  "sortedInsertionRow it items =
     length (takeWhile (\<lambda>x. display_role it < display_role x) items)"

text \<open>
  \<open>table.setItem(row, column, item)\<close> with sorting enabled on column 0: the cell is set,
  and for column 0 the row is taken out and put in at its sorted position, unless it is
  there already. A row number out of range is ignored.
\<close>

definition setItem :: "nat \<Rightarrow> nat \<Rightarrow> table_item \<Rightarrow> table_widget \<Rightarrow> table_widget" where
  "setItem row col it t =
     (if row < length t \<and> col < 7 then
        (let t1 = t[row := set_cell col it (t ! row)]
         in if col = 0 then
              (let colItems = columnItems 0 t1;
                   others = (if row < length colItems then remove_at row colItems else colItems);
                   sortedRow = sortedInsertionRow it others
               in if sortedRow \<noteq> row then insert_at sortedRow (t1 ! row) (remove_at row t1)
                  else t1)
            else t1)
      else t)"

section \<open>The device table\<close>

text \<open>
  \<open>BLEScannerApp\<close> keeps the records in the dictionary \<open>self.devices\<close> and shows them in
  the rows of \<open>self.table\<close>. The detail panels, which \<open>add_device\<close> refreshes for the
  selected row, hold no records and are left out, and so is the alignment of the items.
\<close>

record app_state =
  devices :: "(string \<times> device_info) list"
  table :: table_widget
  status_label :: string

text \<open>\<open>QTableWidgetItem(text)\<close>, and the RSSI item with its integer for sorting.\<close>

definition text_item :: "string \<Rightarrow> table_item" where
  "text_item s = \<lparr> display_role = s, user_role = None \<rparr>"

definition rssi_item :: "device_info \<Rightarrow> table_item" where
  "rssi_item info =
     (if rssi info \<noteq> - 999
      then \<lparr> display_role = str_int (rssi info), user_role = Some (rssi info) \<rparr>
      else \<lparr> display_role = ''N/A'', user_role = Some (- 999) \<rparr>)"

text \<open>
  The search for the existing row, \<open>table.item(row, 0) and table.item(row, 0).text() ==
  address\<close> over the rows from the top: the first row whose address cell has an item with
  the address as its text.
\<close>

definition has_address :: "string \<Rightarrow> table_row \<Rightarrow> bool" where
  "has_address a r = (case cell 0 r of Some it \<Rightarrow> display_role it = a | None \<Rightarrow> False)"

fun find_row :: "string \<Rightarrow> table_widget \<Rightarrow> nat option" where
  "find_row a [] = None"
| "find_row a (r # rs) = (if has_address a r then Some 0 else map_option Suc (find_row a rs))"

text \<open>
  \<open>BLEScannerApp.add_device\<close>: the record goes into the dictionary, then the seven cells
  are set one after the other with the row number found or created before the first of
  them.
\<close>

definition add_device :: "device_info \<Rightarrow> app_state \<Rightarrow> app_state" where
  "add_device info st =
     (let devs = dict_set (address info) info (devices st);
          existing_row = find_row (address info) (table st);
          row = (case existing_row of None \<Rightarrow> length (table st) | Some r \<Rightarrow> r);
          t0 = (case existing_row of None \<Rightarrow> insertRow (length (table st)) (table st)
                | Some r \<Rightarrow> table st);
          t1 = setItem row 0 (text_item (address info)) t0;
          t2 = setItem row 1 (text_item (name info)) t1;
          t3 = setItem row 2 (text_item (manufacturer info)) t2;
          t4 = setItem row 3 (text_item (service_uuids info)) t3;
          t5 = setItem row 4 (text_item (service_data info)) t4;
          t6 = setItem row 5 (rssi_item info) t5;
          t7 = setItem row 6 (text_item (last_seen info)) t6
      in \<lparr> devices = devs,
           table = t7,
           status_label = ''Scanning... Found '' @ to_dec (length devs) @ '' devices'' \<rparr>)"

definition clear_results :: "app_state \<Rightarrow> app_state" where
  "clear_results st = \<lparr> devices = [], table = [], status_label = ''Results cleared'' \<rparr>"

definition initial_state :: app_state where
  "initial_state = \<lparr> devices = [], table = [], status_label = ''Ready to scan'' \<rparr>"

datatype table_op = Upsert device_info | Clear

fun apply_op :: "app_state \<Rightarrow> table_op \<Rightarrow> app_state" where
  "apply_op st (Upsert info) = add_device info st"
| "apply_op st Clear = clear_results st"

definition run_ops :: "table_op list \<Rightarrow> app_state" where
  "run_ops ops = foldl apply_op initial_state ops"

text \<open>
  The address shown in a row, the row that shows a record in full, a row that has only its
  address cell, and the cells \<open>add_device\<close> sets after the address cell.
\<close>

definition row_key :: "table_row \<Rightarrow> string" where
  "row_key r = (case col_address r of Some it \<Rightarrow> display_role it | None \<Rightarrow> [])"

definition set_cells :: "device_info \<Rightarrow> table_row \<Rightarrow> table_row" where
  "set_cells info r =
     r\<lparr> col_name := Some (text_item (name info)),
        col_manufacturer := Some (text_item (manufacturer info)),
        col_service_uuids := Some (text_item (service_uuids info)),
        col_service_data := Some (text_item (service_data info)),
        col_rssi := Some (rssi_item info),
        col_last_seen := Some (text_item (last_seen info)) \<rparr>"

definition address_row :: "string \<Rightarrow> table_row" where
  "address_row a = empty_row\<lparr>col_address := Some (text_item a)\<rparr>"

definition row_items :: "device_info \<Rightarrow> table_row" where
  "row_items info = set_cells info (address_row (address info))"

text \<open>
  What holds of every state reached from the initial one: every row has an address item,
  the addresses of the rows are in strictly descending order, they are the addresses of
  the records, each record is stored under its own address, and no address has two
  records.
\<close>

definition table_inv :: "app_state \<Rightarrow> bool" where
  "table_inv st =
     (list_all (\<lambda>r. col_address r \<noteq> None) (table st) \<and>
      sorted_wrt (\<lambda>x y. y < x) (map row_key (table st)) \<and>
      set (map row_key (table st)) = fst ` set (devices st) \<and>
      list_all (\<lambda>p. address (snd p) = fst p) (devices st) \<and>
      distinct (map fst (devices st)))"

section \<open>Export\<close>





section \<open>Sample inputs\<close>

definition sample_registry :: registry where
  "sample_registry k =
     (if k = 0 then Inr ''Ericsson Technology Licensing''
      else if k = 76 then Inr ''Apple, Inc.''
      else Inr ''Unknown'')"

definition sample_device :: ble_device where
  "sample_device = \<lparr> dev_address = ''AA:BB:CC:DD:EE:FF'', dev_name = None \<rparr>"

definition sample_now :: datetime where
  "sample_now = \<lparr> dt_year = 2024, dt_month = 3, dt_day = 9, dt_hour = 7, dt_minute = 5,
                  dt_second = 42, dt_microsecond = 123456 \<rparr>"

definition sample_adv :: "int option \<Rightarrow> advertisement_data" where
  "sample_adv r =
     \<lparr> adv_local_name = Some ''Tag'',
       adv_manufacturer_data = [(76, [0x02, 0x15])],
       adv_service_data = [],
       adv_service_uuids = [''0000180f-0000-1000-8000-00805f9b34fb''],
       adv_tx_power = None,
       adv_rssi = r,
       adv_platform_data = [] \<rparr>"

definition sample_info :: "int \<Rightarrow> device_info" where
  "sample_info r =
     \<lparr> address = ''AA:BB:CC:DD:EE:FF'', name = ''Tag'', manufacturer = ''Apple, Inc.'',
       manufacturer_id = ''0x004C'', service_uuids = ''180f'', service_data = [],
       rssi = r, last_seen = ''07:05:42'',
       raw_data = \<lparr> raw_manufacturer_data = [(76, [0x02, 0x15])], raw_service_data = [],
                    raw_tx_power = None, raw_platform_data = [] \<rparr> \<rparr>"

definition sample_later :: datetime where
  "sample_later = \<lparr> dt_year = 2024, dt_month = 3, dt_day = 10, dt_hour = 7, dt_minute = 5,
                    dt_second = 42, dt_microsecond = 999999 \<rparr>"

definition zero_id_adv :: advertisement_data where
  "zero_id_adv =
     \<lparr> adv_local_name = None,
       adv_manufacturer_data = [(0, [0x01])],
       adv_service_data = [],
       adv_service_uuids = [],
       adv_tx_power = None,
       adv_rssi = Some (- 60),
       adv_platform_data = [] \<rparr>"

definition service_data_only_adv :: advertisement_data where
  "service_data_only_adv =
     \<lparr> adv_local_name = None,
       adv_manufacturer_data = [],
       adv_service_data = [(''0000feaa-0000-1000-8000-00805f9b34fb'', [0x10])],
       adv_service_uuids = [],
       adv_tx_power = None,
       adv_rssi = Some (- 60),
       adv_platform_data = [] \<rparr>"

definition sample_info_b :: device_info where
  "sample_info_b =
     \<lparr> address = ''BB:BB:CC:DD:EE:FF'', name = ''Beacon'', manufacturer = [],
       manufacturer_id = [], service_uuids = [], service_data = [],
       rssi = - 999, last_seen = ''07:05:43'',
       raw_data = \<lparr> raw_manufacturer_data = [], raw_service_data = [],
                    raw_tx_power = None, raw_platform_data = [] \<rparr> \<rparr>"



definition probe_a :: string where
  "probe_a = ''hci0: UP RUNNING''"

definition probe_b :: string where
  "probe_b = ''hci0: DOWN''"

definition no_traceback :: "exn \<Rightarrow> string" where
  "no_traceback e = []"

definition key_error_registry :: registry where
  "key_error_registry k = Inl (Exn ''KeyError'' ''boom'')"

definition value_error_registry :: registry where
  "value_error_registry k = Inl (Exn ''ValueError'' ''boom'')"

definition flaky_registry :: registry where
  "flaky_registry k = (if k = 39321 then Inl (Exn ''KeyError'' ''39321'') else sample_registry k)"

definition bad_adv :: advertisement_data where
  "bad_adv =
     \<lparr> adv_local_name = None,
       adv_manufacturer_data = [(39321, [])],
       adv_service_data = [],
       adv_service_uuids = [],
       adv_tx_power = None,
       adv_rssi = Some (- 60),
       adv_platform_data = [] \<rparr>"

definition sample_stream :: "adv_event list" where
  "sample_stream =
     [\<lparr> ev_scanning = True, ev_now = sample_now, ev_device = sample_device,
        ev_adv = sample_adv (Some (- 60)) \<rparr>,
      \<lparr> ev_scanning = True, ev_now = sample_now, ev_device = sample_device, ev_adv = bad_adv \<rparr>,
      \<lparr> ev_scanning = True, ev_now = sample_now, ev_device = sample_device,
        ev_adv = sample_adv (Some (- 70)) \<rparr>]"






section \<open>RSSI\<close>

text \<open>
  The only statement of either \<open>try\<close> body that can raise is the registry lookup: when the
  event has no manufacturer data, or the registry returns for its first company
  identifier, the lookup returns.
\<close>

lemma lookup_manufacturer_returns:
  assumes "md = [] \<or> \<not> isl (reg (fst (hd md)))"
  shows "\<exists>m. lookup_manufacturer reg md = Inr m"
proof (cases md)
  case Nil
  then show ?thesis
    by (simp add: lookup_manufacturer_def)
next
  case (Cons p ps)
  with assms obtain nm where "reg (fst p) = Inr nm"
    by (cases "reg (fst p)") auto
  with Cons show ?thesis
    by (simp add: lookup_manufacturer_def)
qed

text \<open>
  C3. For every event whose registry lookup returns, both decoders produce a record, and
  its \<open>rssi\<close> is: for a numeric reading \<open>r\<close>, -99 when \<open>r\<close> is below -99 (such as -100 or
  -120) and \<open>r\<close> itself otherwise (such as -60), so that every stored real reading is at
  least -99 and lies above the sentinel; without a reading, exactly -999.
\<close>

theorem C3_rssi_clamp:
  assumes "adv_manufacturer_data adv = [] \<or>
           \<not> isl (reg (fst (hd (adv_manufacturer_data adv))))"
  shows "map_sum exn_msg rssi (process_device_body reg now device adv) =
           Inr (case adv_rssi adv of Some r \<Rightarrow> if r < - 99 then - 99 else r | None \<Rightarrow> - 999) \<and>
         map_sum exn_msg rssi (detection_callback_body enum reg now device adv) =
           Inr (case adv_rssi adv of Some r \<Rightarrow> if r < - 99 then - 99 else r | None \<Rightarrow> - 999)"
proof -
  from assms obtain m where m: "lookup_manufacturer reg (adv_manufacturer_data adv) = Inr m"
    using lookup_manufacturer_returns by blast
  have r: "rssi_field (adv_rssi adv) =
      (case adv_rssi adv of Some r \<Rightarrow> if r < - 99 then - 99 else r | None \<Rightarrow> - 999)"
    by (auto simp: rssi_field_def max_def split: option.splits)
  show ?thesis
    by (simp add: process_device_body_def detection_callback_body_def m r Let_def)
qed

lemma to_dec_digit: "n < 10 \<Longrightarrow> to_dec n = [hex_digit n]"
  by (simp add: to_dec.simps)

lemma to_hex_digit: "n < 16 \<Longrightarrow> to_hex n = [hex_digit n]"
  by (simp add: to_hex.simps)

lemma fmt_04X_76: "fmt_04X 76 = ''004C''"
  by code_simp

lemma strftime_HMS_sample: "strftime_HMS sample_now = ''07:05:42''"
  by (simp add: strftime_HMS_def sample_now_def fmt_02d_def zfill_def to_dec.simps [of 42]
        to_dec_digit hex_digit_def)

lemma convert_uuid_180f: "convert_uuid ''0000180f-0000-1000-8000-00805f9b34fb'' = ''180f''"
  by (simp add: convert_uuid_def endswith_def startswith_def sig_base_suffix_def)

lemma process_device_body_sample:
  "process_device_body sample_registry sample_now sample_device (sample_adv r) =
     Inr (sample_info (rssi_field r))"
  by (simp add: process_device_body_def lookup_manufacturer_def sample_registry_def
        sample_device_def sample_adv_def sample_info_def startswith_def fmt_04X_76
        manufacturer_id_field_def name_field_def strftime_HMS_sample convert_uuid_180f)

lemma sample_adv_returns:
  "adv_manufacturer_data (sample_adv r) = [] \<or>
   \<not> isl (sample_registry (fst (hd (adv_manufacturer_data (sample_adv r)))))"
  by (simp add: sample_adv_def sample_registry_def)

lemma adv_rssi_sample: "adv_rssi (sample_adv r) = r"
  by (simp add: sample_adv_def)

theorem C3_rssi_clamp_witness:
  "(adv_manufacturer_data (sample_adv (Some (- 120))) = [] \<or>
    \<not> isl (sample_registry (fst (hd (adv_manufacturer_data (sample_adv (Some (- 120)))))))) \<and>
   map_sum exn_msg rssi
     (process_device_body sample_registry sample_now sample_device (sample_adv (Some (- 120)))) =
     Inr (- 99) \<and>
   map_sum exn_msg rssi
     (detection_callback_body remdups sample_registry sample_now sample_device
        (sample_adv (Some (- 120)))) = Inr (- 99) \<and>
   map_sum exn_msg rssi
     (detection_callback_body remdups sample_registry sample_now sample_device
        (sample_adv (Some (- 60)))) = Inr (- 60) \<and>
   map_sum exn_msg rssi
     (process_device_body sample_registry sample_now sample_device (sample_adv None)) =
     Inr (- 999) \<and>
   map_sum exn_msg rssi
     (detection_callback_body remdups sample_registry sample_now sample_device (sample_adv None)) =
     Inr (- 999)"
proof -
  note c = C3_rssi_clamp [where reg = sample_registry and now = sample_now
      and device = sample_device and enum = remdups, OF sample_adv_returns]
  from c [of "Some (- 120)"] c [of "Some (- 60)"] c [of None] sample_adv_returns [of "Some (- 120)"]
  show ?thesis
    by (simp add: adv_rssi_sample)
qed

section \<open>UUID conversion, characterised\<close>

lemma length_split_on: "length (split_on c s) = Suc (length (filter (\<lambda>x. x = c) s))"
  by (induction s) (auto split: list.splits)

lemma split_on_prefix: "c \<notin> set p \<Longrightarrow> split_on c (p @ c # r) = p # split_on c r"
  by (induction p) auto

lemma split_on_sig_base:
  "split_on CHR ''-'' ''0000-1000-8000-00805f9b34fb'' = [''0000'', ''1000'', ''8000'', ''00805f9b34fb'']"
  by simp

lemma count_sig_base:
  "length (filter (\<lambda>x. x = CHR ''-'') sig_base_suffix) = 4"
  by (simp add: sig_base_suffix_def)

lemma length_sig_base: "length sig_base_suffix = 28"
  by (simp add: sig_base_suffix_def)

lemma convert_uuid_sig:
  assumes len: "length u = 36" and suf: "drop 8 u = sig_base_suffix"
  shows "convert_uuid u =
     (if CHR ''-'' \<notin> set (take 8 u) \<and> take 4 u = ''0000'' then take 4 (drop 4 u) else u)"
proof -
  have ends: "endswith u sig_base_suffix"
    using len suf by (simp add: endswith_def length_sig_base)
  have u: "u = take 8 u @ sig_base_suffix"
    using suf by (metis append_take_drop_id)
  show ?thesis
  proof (cases "CHR ''-'' \<in> set (take 8 u)")
    case True
    then have "filter (\<lambda>x. x = CHR ''-'') (take 8 u) \<noteq> []"
      by (auto simp: filter_empty_conv)
    then have "0 < length (filter (\<lambda>x. x = CHR ''-'') (take 8 u))"
      by simp
    moreover have "length (filter (\<lambda>x. x = CHR ''-'') u) =
        length (filter (\<lambda>x. x = CHR ''-'') (take 8 u)) + 4"
      by (subst u) (simp only: filter_append length_append count_sig_base)
    ultimately have "length (split_on CHR ''-'' u) \<noteq> 5"
      by (simp add: length_split_on)
    with True show ?thesis
      by (simp add: convert_uuid_def Let_def)
  next
    case False
    have "split_on CHR ''-'' u = split_on CHR ''-'' (take 8 u @ CHR ''-'' # ''0000-1000-8000-00805f9b34fb'')"
      by (subst u) (simp add: sig_base_suffix_def)
    also have "\<dots> = take 8 u # split_on CHR ''-'' ''0000-1000-8000-00805f9b34fb''"
      using False by (rule split_on_prefix)
    finally have parts: "split_on CHR ''-'' u =
        [take 8 u, ''0000'', ''1000'', ''8000'', ''00805f9b34fb'']"
      by (simp only: split_on_sig_base)
    have four: "Suc (Suc (Suc (Suc 0))) = 4"
      by simp
    have sw: "startswith (take 8 u) ''0000'' = (take 4 u = ''0000'')"
      by (simp add: startswith_def four)
    have dr: "drop 4 (take 8 u) = take 4 (drop 4 u)"
      by (simp add: drop_take)
    show ?thesis
      using False len ends by (simp add: convert_uuid_def parts sw dr)
  qed
qed

lemma convert_uuid_other:
  "\<not> (length u = 36 \<and> drop 8 u = sig_base_suffix) \<Longrightarrow> convert_uuid u = u"
  by (auto simp: convert_uuid_def endswith_def length_sig_base)

text \<open>
  C1, as the code has it. The comparison with the SIG base suffix is exact (lower case
  only), and the 16-bit part is returned as it was written, without a change of case: a
  36-character string that ends with \<open>-0000-1000-8000-00805f9b34fb\<close>, has no hyphen among
  its first eight characters (so that it splits into five groups) and starts with
  \<open>0000\<close> is converted to characters 5 to 8 of the first group; every other string is
  returned unchanged.
\<close>

theorem C1_convert_uuid:
  "convert_uuid u =
     (if length u = 36 \<and> drop 8 u = sig_base_suffix \<and> CHR ''-'' \<notin> set (take 8 u) \<and>
         take 4 u = ''0000''
      then take 4 (drop 4 u) else u)"
proof (cases "length u = 36 \<and> drop 8 u = sig_base_suffix")
  case True
  then show ?thesis by (simp add: convert_uuid_sig)
next
  case False
  then show ?thesis by (auto simp: convert_uuid_other)
qed

theorem C1_convert_uuid_witness:
  "convert_uuid ''0000180f-0000-1000-8000-00805f9b34fb'' = ''180f'' \<and>
   convert_uuid ''12345678-0000-1000-8000-00805f9b34fb'' = ''12345678-0000-1000-8000-00805f9b34fb''"
  using C1_convert_uuid [of "''0000180f-0000-1000-8000-00805f9b34fb''"]
        C1_convert_uuid [of "''12345678-0000-1000-8000-00805f9b34fb''"]
  by (simp add: sig_base_suffix_def)

text \<open>
  The claim as worded fails twice: a lower-case SIG-base UUID is shortened but not put in
  upper case, and an upper-case SIG-base UUID does not match the suffix and is returned
  whole.
\<close>

theorem C1_case_counterexample:
  "convert_uuid ''0000180f-0000-1000-8000-00805f9b34fb'' = ''180f'' \<and>
   convert_uuid ''0000180f-0000-1000-8000-00805f9b34fb'' \<noteq> ''180F'' \<and>
   convert_uuid ''0000180F-0000-1000-8000-00805F9B34FB'' = ''0000180F-0000-1000-8000-00805F9B34FB''"
  by (simp add: convert_uuid_def endswith_def startswith_def sig_base_suffix_def)

section \<open>Last seen\<close>

lemma length_to_dec: "0 < k \<Longrightarrow> n < 10 ^ k \<Longrightarrow> length (to_dec n) \<le> k"
proof (induction k arbitrary: n)
  case 0
  then show ?case by simp
next
  case (Suc k)
  show ?case
  proof (cases "n < 10")
    case True
    then show ?thesis by (simp add: to_dec_digit)
  next
    case False
    with Suc.prems have k: "0 < k"
      by (cases k) auto
    from Suc.prems have "n div 10 < 10 ^ k"
      by (simp add: less_mult_imp_div_less mult.commute)
    with Suc.IH k have "length (to_dec (n div 10)) \<le> k"
      by simp
    with False show ?thesis
      by (simp add: to_dec.simps [of n])
  qed
qed

lemma length_zfill: "length (zfill w s) = max w (length s)"
  by (simp add: zfill_def)

lemma length_fmt_02d: "n < 100 \<Longrightarrow> length (fmt_02d n) = 2"
  using length_to_dec [of 2 n] by (simp add: fmt_02d_def length_zfill)


lemma strftime_HMS_clock:
  assumes "dt_hour now' = dt_hour now" and "dt_minute now' = dt_minute now"
    and "dt_second now' = dt_second now"
  shows "strftime_HMS now' = strftime_HMS now"
  using assms by (simp add: strftime_HMS_def)

lemma process_device_body_clock:
  "strftime_HMS now' = strftime_HMS now \<Longrightarrow>
   process_device_body reg now' device adv = process_device_body reg now device adv"
  by (simp add: process_device_body_def cong: sum.case_cong)

lemma detection_callback_body_clock:
  "strftime_HMS now' = strftime_HMS now \<Longrightarrow>
   detection_callback_body enum reg now' device adv =
   detection_callback_body enum reg now device adv"
  by (simp add: detection_callback_body_def cong: sum.case_cong)

text \<open>
  C8, as the code has it. For every event whose registry lookup returns, both decoders
  produce a record whose \<open>last_seen\<close> is the text \<open>HH:MM:SS\<close> of the wall clock at decode
  (eight characters for a valid time of day). Nothing else of the clock reaches the
  result: two capture times with the same hour, minute and second give the same result
  in both decoders, whatever their dates and fractions of a second.
\<close>

theorem C8_last_seen:
  assumes "adv_manufacturer_data adv = [] \<or>
           \<not> isl (reg (fst (hd (adv_manufacturer_data adv))))"
  shows "map_sum exn_msg last_seen (process_device_body reg now device adv) =
           Inr (fmt_02d (dt_hour now) @ '':'' @ fmt_02d (dt_minute now) @ '':'' @
                fmt_02d (dt_second now)) \<and>
         map_sum exn_msg last_seen (detection_callback_body enum reg now device adv) =
           Inr (fmt_02d (dt_hour now) @ '':'' @ fmt_02d (dt_minute now) @ '':'' @
                fmt_02d (dt_second now)) \<and>
         (dt_hour now < 24 \<and> dt_minute now < 60 \<and> dt_second now < 60 \<longrightarrow>
            length (fmt_02d (dt_hour now) @ '':'' @ fmt_02d (dt_minute now) @ '':'' @
                    fmt_02d (dt_second now)) = 8) \<and>
         (dt_hour now' = dt_hour now \<and> dt_minute now' = dt_minute now \<and>
          dt_second now' = dt_second now \<longrightarrow>
            process_device_body reg now' device adv = process_device_body reg now device adv \<and>
            detection_callback_body enum reg now' device adv =
              detection_callback_body enum reg now device adv)"
proof -
  from assms obtain m where m: "lookup_manufacturer reg (adv_manufacturer_data adv) = Inr m"
    using lookup_manufacturer_returns by blast
  have a: "map_sum exn_msg last_seen (process_device_body reg now device adv) =
      Inr (strftime_HMS now)"
    by (simp add: process_device_body_def m Let_def)
  have b: "map_sum exn_msg last_seen (detection_callback_body enum reg now device adv) =
      Inr (strftime_HMS now)"
    by (simp add: detection_callback_body_def m Let_def)
  have c: "dt_hour now < 24 \<and> dt_minute now < 60 \<and> dt_second now < 60 \<longrightarrow>
      length (strftime_HMS now) = 8"
    by (simp add: strftime_HMS_def length_fmt_02d)
  have d: "dt_hour now' = dt_hour now \<and> dt_minute now' = dt_minute now \<and>
      dt_second now' = dt_second now \<longrightarrow>
        process_device_body reg now' device adv = process_device_body reg now device adv \<and>
        detection_callback_body enum reg now' device adv =
          detection_callback_body enum reg now device adv"
    using strftime_HMS_clock [of now' now]
    by (auto intro: process_device_body_clock detection_callback_body_clock)
  from a b c d show ?thesis
    unfolding strftime_HMS_def by blast
qed

lemma sample_clock:
  "dt_hour sample_now < 24 \<and> dt_minute sample_now < 60 \<and> dt_second sample_now < 60 \<and>
   dt_hour sample_later = dt_hour sample_now \<and> dt_minute sample_later = dt_minute sample_now \<and>
   dt_second sample_later = dt_second sample_now"
  by (simp add: sample_now_def sample_later_def)

theorem C8_last_seen_witness:
  "(adv_manufacturer_data (sample_adv None) = [] \<or>
    \<not> isl (sample_registry (fst (hd (adv_manufacturer_data (sample_adv None)))))) \<and>
   dt_hour sample_now < 24 \<and> dt_minute sample_now < 60 \<and> dt_second sample_now < 60 \<and>
   dt_hour sample_later = dt_hour sample_now \<and> dt_minute sample_later = dt_minute sample_now \<and>
   dt_second sample_later = dt_second sample_now \<and>
   map_sum exn_msg last_seen
     (process_device_body sample_registry sample_now sample_device (sample_adv None)) =
     Inr ''07:05:42'' \<and>
   map_sum exn_msg last_seen
     (detection_callback_body remdups sample_registry sample_now sample_device (sample_adv None)) =
     Inr ''07:05:42'' \<and>
   length ''07:05:42'' = 8 \<and>
   detection_callback_body remdups sample_registry sample_later sample_device (sample_adv None) =
   detection_callback_body remdups sample_registry sample_now sample_device (sample_adv None)"
proof -
  from C8_last_seen [where reg = sample_registry and now = sample_now and now' = sample_later
      and device = sample_device and enum = remdups, OF sample_adv_returns [of None],
      folded strftime_HMS_def]
    sample_clock sample_adv_returns [of None]
  show ?thesis
    by (simp add: strftime_HMS_sample)
qed

text \<open>
  Two captures a day and most of a second apart give the same record: the full precision
  of the clock is not retained.
\<close>

theorem C8_precision_counterexample:
  "sample_now \<noteq> sample_later \<and>
   process_device_body sample_registry sample_now sample_device (sample_adv None) =
   process_device_body sample_registry sample_later sample_device (sample_adv None)"
  by (simp add: process_device_body_def strftime_HMS_def sample_now_def sample_later_def
        cong: sum.case_cong)

section \<open>Manufacturer\<close>

lemma manufacturer_first_key:
  assumes "process_device_body reg now device adv = Inr info \<or>
           detection_callback_body enum reg now device adv = Inr info"
    and "adv_manufacturer_data adv = (k, d) # rest" and "reg k = Inr nm"
  shows "manufacturer info = (if startswith nm ''Unknown'' then ''0x'' @ fmt_04X k else nm) \<and>
         manufacturer_id info = (if k = 0 then [] else ''0x'' @ fmt_04X k)"
  using assms
  by (auto simp: process_device_body_def detection_callback_body_def lookup_manufacturer_def
        manufacturer_id_field_def Let_def split: sum.splits)

text \<open>
  C4 at the company identifier 0 (a valid, assigned identifier): the name is resolved from
  the first key, but the identifier field is empty, as it is for an event without
  manufacturer data, in both decoders.
\<close>

theorem C4_zero_company_id:
  "map_sum exn_msg (\<lambda>i. (manufacturer i, manufacturer_id i))
     (process_device_body sample_registry sample_now sample_device zero_id_adv) =
     Inr (''Ericsson Technology Licensing'', []) \<and>
   map_sum exn_msg (\<lambda>i. (manufacturer i, manufacturer_id i))
     (detection_callback_body remdups sample_registry sample_now sample_device zero_id_adv) =
     Inr (''Ericsson Technology Licensing'', [])"
  by (simp add: process_device_body_def detection_callback_body_def lookup_manufacturer_def
        sample_registry_def zero_id_adv_def startswith_def manufacturer_id_field_def)

section \<open>Service UUIDs\<close>

text \<open>
  C2, as the code has it. The callback scanner (\<open>detection_callback\<close>) lists the converted
  UUIDs of the union of the advertised list and the service-data keys, each raw UUID once,
  in the order in which the set is enumerated; the iterator scanner (\<open>process_device\<close>)
  lists the converted advertised UUIDs only.
\<close>

theorem C2_service_uuids:
  assumes "\<forall>xs. set (enum xs) = set xs \<and> distinct (enum xs)"
  shows "(detection_callback_body enum reg now device adv = Inr info \<longrightarrow>
            (let all_uuids = enum (adv_service_uuids adv @ map fst (adv_service_data adv))
             in service_uuids info = py_join [CHR 0x0A] (map convert_uuid all_uuids) \<and>
                set (map convert_uuid all_uuids) =
                  convert_uuid ` (set (adv_service_uuids adv) \<union> fst ` set (adv_service_data adv)) \<and>
                length all_uuids =
                  card (set (adv_service_uuids adv) \<union> fst ` set (adv_service_data adv)))) \<and>
         (process_device_body reg now device adv = Inr info' \<longrightarrow>
            service_uuids info' = py_join [CHR 0x0A] (map convert_uuid (adv_service_uuids adv)))"
proof -
  have s: "set (enum (adv_service_uuids adv @ map fst (adv_service_data adv))) =
      set (adv_service_uuids adv) \<union> fst ` set (adv_service_data adv)"
    using assms by simp
  have d: "distinct (enum (adv_service_uuids adv @ map fst (adv_service_data adv)))"
    using assms by simp
  have l: "length (enum (adv_service_uuids adv @ map fst (adv_service_data adv))) =
      card (set (adv_service_uuids adv) \<union> fst ` set (adv_service_data adv))"
    using distinct_card [OF d] s by simp
  show ?thesis
    using s l
    by (auto simp: process_device_body_def detection_callback_body_def Let_def split: sum.splits)
qed

lemma convert_uuid_feaa: "convert_uuid ''0000feaa-0000-1000-8000-00805f9b34fb'' = ''feaa''"
  by (simp add: convert_uuid_def endswith_def startswith_def sig_base_suffix_def)

lemma detection_callback_body_service_data_only:
  "\<exists>info. detection_callback_body remdups sample_registry sample_now sample_device
      service_data_only_adv = Inr info"
  by (simp add: detection_callback_body_def lookup_manufacturer_def service_data_only_adv_def)

theorem C2_service_uuids_witness:
  "(\<forall>xs. set (remdups xs) = set xs \<and> distinct (remdups xs)) \<and>
   map_sum exn_msg service_uuids
     (detection_callback_body remdups sample_registry sample_now sample_device
        service_data_only_adv) = Inr ''feaa''"
proof -
  have h: "\<forall>xs::string list. set (remdups xs) = set xs \<and> distinct (remdups xs)"
    by simp
  obtain info where e: "detection_callback_body remdups sample_registry sample_now sample_device
      service_data_only_adv = Inr info"
    using detection_callback_body_service_data_only by blast
  from C2_service_uuids [OF h, of sample_registry sample_now sample_device service_data_only_adv info]
  have "service_uuids info = ''feaa''"
    using e by (simp add: service_data_only_adv_def convert_uuid_feaa)
  with e h show ?thesis
    by simp
qed

text \<open>
  In the iterator scanner a UUID that appears only as a service-data key is not listed:
  the list is empty, while the key shows in the service-data column.
\<close>

theorem C2_union_counterexample:
  "map_sum exn_msg (\<lambda>i. (service_uuids i, service_data i))
     (process_device_body sample_registry sample_now sample_device service_data_only_adv) =
     Inr ([], ''feaa'' @ [CHR 0x0A] @ ''data: 10'')"
  by (simp add: process_device_body_def lookup_manufacturer_def service_data_only_adv_def
        service_data_step_def convert_uuid_feaa hex_upper_def fmt_02X_def zfill_def
        to_hex.simps [of 16] to_hex_digit hex_digit_def Let_def)

section \<open>Hex dump\<close>
























section \<open>Device table\<close>

subsection \<open>The dictionary\<close>

lemma dict_set_idem: "dict_set k v (dict_set k v d) = dict_set k v d"
  by (induction d) auto

lemma map_fst_dict_set:
  "map fst (dict_set k v d) = (if k \<in> fst ` set d then map fst d else map fst d @ [k])"
  by (induction d) auto

lemma fst_set_dict_set: "fst ` set (dict_set k v d) = insert k (fst ` set d)"
  by (induction d) auto

lemma dict_set_new: "k \<notin> fst ` set d \<Longrightarrow> dict_set k v d = d @ [(k, v)]"
  by (induction d) auto

lemma dict_set_nth:
  "distinct (map fst d) \<Longrightarrow> i < length d \<Longrightarrow>
   dict_set k v d ! i = (if fst (d ! i) = k then (k, v) else d ! i)"
proof (induction d arbitrary: i)
  case Nil
  then show ?case by simp
next
  case (Cons p d)
  show ?case
  proof (cases i)
    case 0
    then show ?thesis by (cases p) auto
  next
    case (Suc j)
    with Cons.prems have j: "j < length d" and dd: "distinct (map fst d)"
      and np: "fst p \<notin> fst ` set d"
      by auto
    show ?thesis
    proof (cases "fst p = k")
      case True
      with np j have "fst (d ! j) \<noteq> k"
        by (metis image_eqI nth_mem)
      with True Suc show ?thesis by simp
    next
      case False
      with Suc Cons.IH [OF dd j] show ?thesis by simp
    qed
  qed
qed

lemma distinct_dict_set: "distinct (map fst d) \<Longrightarrow> distinct (map fst (dict_set k v d))"
  by (auto simp: map_fst_dict_set)

lemma dict_set_keys_match:
  "\<forall>p \<in> set d. address (snd p) = fst p \<Longrightarrow>
   \<forall>p \<in> set (dict_set (address info) info d). address (snd p) = fst p"
  by (induction d) auto

lemma devices_add_device: "devices (add_device info st) = dict_set (address info) info (devices st)"
  by (simp add: add_device_def Let_def)

lemma devices_add_device_twice:
  "devices (add_device info (add_device info st)) = devices (add_device info st)"
  by (simp add: devices_add_device dict_set_idem)

subsection \<open>Lists\<close>

lemma takeWhile_none: "\<forall>y \<in> set ys. \<not> P y \<Longrightarrow> takeWhile P ys = []"
  by (cases ys) auto

lemma takeWhile_split:
  "\<forall>x \<in> set xs. P x \<Longrightarrow> \<forall>y \<in> set ys. \<not> P y \<Longrightarrow> takeWhile P (xs @ ys) = xs"
  by (induction xs) (simp_all add: takeWhile_none)

lemma length_insert_at: "length (insert_at i x xs) = Suc (length xs)"
  using arg_cong [OF append_take_drop_id [of i xs], of length]
  by (simp add: insert_at_def)

lemma length_remove_at: "i < length xs \<Longrightarrow> Suc (length (remove_at i xs)) = length xs"
  by (simp add: remove_at_def)

lemma remove_at_update: "remove_at i (xs[i := x]) = remove_at i xs"
  by (simp add: remove_at_def)

lemma remove_at_map: "remove_at i (map f xs) = map f (remove_at i xs)"
  by (simp add: remove_at_def take_map drop_map)

lemma remove_at_last: "remove_at (length xs) (xs @ [x]) = xs"
  by (simp add: remove_at_def)

lemma map_insert_at: "map f (insert_at i x xs) = insert_at i (f x) (map f xs)"
  by (simp add: insert_at_def take_map drop_map)

lemma insert_at_takeWhile:
  "insert_at (length (takeWhile P xs)) x xs = takeWhile P xs @ [x] @ dropWhile P xs"
  by (simp add: insert_at_def takeWhile_eq_take [symmetric] dropWhile_eq_drop [symmetric])

lemma set_insert_split: "set (takeWhile P xs @ [a] @ dropWhile P xs) = insert a (set xs)"
proof -
  have "set (takeWhile P xs) \<union> set (dropWhile P xs) = set (takeWhile P xs @ dropWhile P xs)"
    by (simp only: set_append)
  also have "\<dots> = set xs"
    by (simp only: takeWhile_dropWhile_id)
  finally have u: "set (takeWhile P xs) \<union> set (dropWhile P xs) = set xs" .
  show ?thesis
    using u by auto
qed

lemma map_update_same:
  assumes "f x = f (xs ! i)"
  shows "map f (xs[i := x]) = map f xs"
proof (rule nth_equalityI)
  show "length (map f (xs[i := x])) = length (map f xs)"
    by simp
next
  fix j
  assume "j < length (map f (xs[i := x]))"
  then show "map f (xs[i := x]) ! j = map f xs ! j"
    using assms by (cases "j = i") simp_all
qed

lemma list_all_update: "list_all P xs \<Longrightarrow> P x \<Longrightarrow> list_all P (xs[i := x])"
  using set_update_subset_insert [of xs i x] by (auto simp: list_all_iff)

lemma list_all_insert_at: "list_all P xs \<Longrightarrow> P x \<Longrightarrow> list_all P (insert_at i x xs)"
  by (auto simp: insert_at_def list_all_iff dest: in_set_takeD in_set_dropD)

lemma list_all_remove_at: "list_all P xs \<Longrightarrow> list_all P (remove_at i xs)"
  by (auto simp: remove_at_def list_all_iff dest: in_set_takeD in_set_dropD)

lemma sorted_desc_distinct:
  fixes ks :: "'a :: linorder list"
  shows "sorted_wrt (\<lambda>x y. y < x) ks \<Longrightarrow> distinct ks"
  by (induction ks) auto

lemma sorted_insert_desc:
  fixes a :: "'a :: linorder"
  assumes "sorted_wrt (\<lambda>x y. y < x) ks" and "a \<notin> set ks"
  shows "sorted_wrt (\<lambda>x y. y < x) (takeWhile (\<lambda>k. a < k) ks @ [a] @ dropWhile (\<lambda>k. a < k) ks)"
  using assms
proof (induction ks)
  case Nil
  then show ?case by simp
next
  case (Cons k ks)
  from Cons.prems have s: "sorted_wrt (\<lambda>x y. y < x) ks" and g: "\<forall>y \<in> set ks. y < k"
    and n: "a \<notin> set ks" and ne: "a \<noteq> k"
    by auto
  show ?case
  proof (cases "a < k")
    case True
    have ih: "sorted_wrt (\<lambda>x y. y < x)
        (takeWhile (\<lambda>k. a < k) ks @ [a] @ dropWhile (\<lambda>k. a < k) ks)"
      using s n by (rule Cons.IH)
    have "set (takeWhile (\<lambda>k. a < k) ks @ [a] @ dropWhile (\<lambda>k. a < k) ks) = insert a (set ks)"
      by (rule set_insert_split)
    with g True have "\<forall>y \<in> set (takeWhile (\<lambda>k. a < k) ks @ [a] @ dropWhile (\<lambda>k. a < k) ks). y < k"
      by simp
    with ih True show ?thesis
      by simp
  next
    case False
    with ne have ak: "k < a"
      by simp
    with g have "\<forall>y \<in> set ks. y < a"
      by (auto intro: less_trans)
    with ak False Cons.prems(1) show ?thesis
      by simp
  qed
qed

subsection \<open>The widget\<close>

lemma length_setItem: "length (setItem row col it t) = length t"
  by (simp add: setItem_def Let_def length_insert_at length_remove_at)

lemma row_key_the: "col_address r \<noteq> None \<Longrightarrow> display_role (the (col_address r)) = row_key r"
  by (auto simp: row_key_def)

lemma has_address_key: "col_address r \<noteq> None \<Longrightarrow> has_address a r \<longleftrightarrow> row_key r = a"
  by (auto simp: has_address_def cell_def row_key_def)

lemma row_key_set_cells: "row_key (set_cells info r) = row_key r"
  by (simp add: row_key_def set_cells_def)

lemma col_address_set_cells: "col_address (set_cells info r) = col_address r"
  by (simp add: set_cells_def)

lemma row_key_address_row: "row_key (address_row a) = a"
  by (simp add: row_key_def address_row_def text_item_def)

lemma col_address_address_row: "col_address (address_row a) \<noteq> None"
  by (simp add: address_row_def)

lemma row_key_row_items: "row_key (row_items info) = address info"
  by (simp add: row_items_def row_key_set_cells row_key_address_row)

lemma col_address_row_items: "col_address (row_items info) \<noteq> None"
  by (simp add: row_items_def col_address_set_cells col_address_address_row)

lemma set_cells_address:
  "set_cells info (r\<lparr>col_address := Some (text_item (address info))\<rparr>) = row_items info"
  by (cases r) (simp add: row_items_def set_cells_def address_row_def empty_row_def)

lemma find_row_Some: "find_row a t = Some row \<Longrightarrow> row < length t \<and> has_address a (t ! row)"
  by (induction t arbitrary: row) (auto split: if_splits)

lemma find_row_None_keys:
  "list_all (\<lambda>r. col_address r \<noteq> None) t \<Longrightarrow> find_row a t = None \<longleftrightarrow> a \<notin> set (map row_key t)"
  by (induction t) (auto simp: has_address_key)

lemma columnItems_all:
  "list_all (\<lambda>r. col_address r \<noteq> None) t \<Longrightarrow> columnItems 0 t = map (\<lambda>r. the (col_address r)) t"
  by (induction t) (simp_all add: columnItems_def cell_def)

lemma sortedInsertionRow_rows:
  "list_all (\<lambda>r. col_address r \<noteq> None) rows \<Longrightarrow>
   sortedInsertionRow (text_item a) (map (\<lambda>r. the (col_address r)) rows) =
     length (takeWhile (\<lambda>r. a < row_key r) rows)"
  by (induction rows) (simp_all add: sortedInsertionRow_def text_item_def row_key_the)

text \<open>
  Setting the address cell of a row whose other rows all have an address item: the row
  goes where its address belongs among the others.
\<close>

lemma setItem_address:
  assumes r: "row < length t"
    and ok: "list_all (\<lambda>r. col_address r \<noteq> None) (remove_at row t)"
  shows "setItem row 0 (text_item a) t =
     (if length (takeWhile (\<lambda>r. a < row_key r) (remove_at row t)) \<noteq> row
      then insert_at (length (takeWhile (\<lambda>r. a < row_key r) (remove_at row t)))
             ((t ! row)\<lparr>col_address := Some (text_item a)\<rparr>) (remove_at row t)
      else t[row := (t ! row)\<lparr>col_address := Some (text_item a)\<rparr>])"
proof -
  let ?new = "(t ! row)\<lparr>col_address := Some (text_item a)\<rparr>"
  have t1: "t[row := ?new] = take row t @ [?new] @ drop (Suc row) t"
    using r by (simp add: upd_conv_take_nth_drop)
  have ok1: "list_all (\<lambda>r. col_address r \<noteq> None) (t[row := ?new])"
    using ok by (simp add: t1 remove_at_def)
  have c: "columnItems 0 (t[row := ?new]) = map (\<lambda>r. the (col_address r)) (t[row := ?new])"
    using ok1 by (rule columnItems_all)
  have o: "remove_at row (columnItems 0 (t[row := ?new])) =
      map (\<lambda>r. the (col_address r)) (remove_at row t)"
    by (simp only: c remove_at_map remove_at_update)
  have p: "sortedInsertionRow (text_item a) (map (\<lambda>r. the (col_address r)) (remove_at row t)) =
      length (takeWhile (\<lambda>r. a < row_key r) (remove_at row t))"
    using ok by (rule sortedInsertionRow_rows)
  have l: "row < length (columnItems 0 (t[row := ?new]))"
    using r by (simp add: c)
  have s: "set_cell 0 (text_item a) (t ! row) = ?new"
    by (simp add: set_cell_def)
  show ?thesis
    using r l by (simp add: setItem_def s Let_def o p remove_at_update)
qed

lemma setItem_address_present:
  assumes ok: "list_all (\<lambda>r. col_address r \<noteq> None) t"
    and s: "sorted_wrt (\<lambda>x y. y < x) (map row_key t)"
    and r: "row < length t" and k: "row_key (t ! row) = a"
  shows "setItem row 0 (text_item a) t = t[row := (t ! row)\<lparr>col_address := Some (text_item a)\<rparr>]"
proof -
  from s have q: "sorted_wrt (\<lambda>x y. row_key y < row_key x) t"
    by (simp add: sorted_wrt_map)
  have "sorted_wrt (\<lambda>x y. row_key y < row_key x) (take row t @ t ! row # drop (Suc row) t)"
    using q by (simp only: id_take_nth_drop [OF r, symmetric])
  then have a1: "\<forall>x \<in> set (take row t). a < row_key x"
    and a2: "\<forall>y \<in> set (drop (Suc row) t). row_key y < a"
    using k by (auto simp: sorted_wrt_append)
  from a2 have a3: "\<forall>y \<in> set (drop (Suc row) t). \<not> a < row_key y"
    by (auto dest: less_asym)
  have "takeWhile (\<lambda>r. a < row_key r) (remove_at row t) = take row t"
    unfolding remove_at_def using a1 a3 by (rule takeWhile_split)
  then have p: "length (takeWhile (\<lambda>r. a < row_key r) (remove_at row t)) = row"
    using r by simp
  have okr: "list_all (\<lambda>r. col_address r \<noteq> None) (remove_at row t)"
    using ok by (rule list_all_remove_at)
  show ?thesis
    using setItem_address [OF r okr, of a] by (simp add: p)
qed

lemma setItem_address_new:
  assumes ok: "list_all (\<lambda>r. col_address r \<noteq> None) t"
  shows "setItem (length t) 0 (text_item a) (insertRow (length t) t) =
         insert_at (length (takeWhile (\<lambda>r. a < row_key r) t)) (address_row a) t"
proof -
  have i: "insertRow (length t) t = t @ [empty_row]"
    by (simp add: insertRow_def)
  have okr: "list_all (\<lambda>r. col_address r \<noteq> None) (remove_at (length t) (t @ [empty_row]))"
    using ok by (simp add: remove_at_last)
  have l: "length t < length (t @ [empty_row])"
    by simp
  have e: "insert_at (length t) (address_row a) t = t @ [address_row a]"
    by (simp add: insert_at_def)
  show ?thesis
  proof (cases "length (takeWhile (\<lambda>r. a < row_key r) t) = length t")
    case True
    with setItem_address [OF l okr, of a] show ?thesis
      by (simp add: i remove_at_last address_row_def e [unfolded address_row_def])
  next
    case False
    with setItem_address [OF l okr, of a] show ?thesis
      by (simp add: i remove_at_last address_row_def)
  qed
qed

lemma setItem_cells:
  assumes "row < length t"
  shows "setItem row 6 x6 (setItem row 5 x5 (setItem row 4 x4 (setItem row 3 x3
           (setItem row 2 x2 (setItem row (Suc 0) x1 t))))) =
         t[row := (t ! row)\<lparr> col_name := Some x1, col_manufacturer := Some x2,
                              col_service_uuids := Some x3, col_service_data := Some x4,
                              col_rssi := Some x5, col_last_seen := Some x6 \<rparr>]"
  using assms by (simp add: setItem_def set_cell_def Let_def)

subsection \<open>Upserts\<close>

text \<open>
  An upsert for an address that has a row rewrites that row in full. An upsert for a new
  address puts a row with the address cell where the address belongs in the order, and
  then sets the six other cells in the row that has the number of the row first created,
  the last one.
\<close>

lemma table_add_device_present:
  assumes inv: "table_inv st" and f: "find_row (address info) (table st) = Some row"
  shows "table (add_device info st) = (table st)[row := row_items info]"
proof -
  from f have r: "row < length (table st)" and h: "has_address (address info) (table st ! row)"
    using find_row_Some by blast+
  from inv have ok: "list_all (\<lambda>r. col_address r \<noteq> None) (table st)"
    and s: "sorted_wrt (\<lambda>x y. y < x) (map row_key (table st))"
    by (simp_all add: table_inv_def)
  from ok r have "col_address (table st ! row) \<noteq> None"
    by (simp add: list_all_length)
  with h have k: "row_key (table st ! row) = address info"
    by (simp add: has_address_key)
  have t1: "setItem row 0 (text_item (address info)) (table st) =
      (table st)[row := (table st ! row)\<lparr>col_address := Some (text_item (address info))\<rparr>]"
    using ok s r k by (rule setItem_address_present)
  have "table (add_device info st) =
      (table st)[row := set_cells info
        ((table st ! row)\<lparr>col_address := Some (text_item (address info))\<rparr>)]"
    using r by (simp add: add_device_def Let_def f t1 setItem_cells set_cells_def)
  then show ?thesis
    by (simp add: set_cells_address)
qed

lemma table_add_device_new:
  assumes inv: "table_inv st" and f: "find_row (address info) (table st) = None"
  shows "table (add_device info st) =
     (insert_at (length (takeWhile (\<lambda>r. address info < row_key r) (table st)))
        (address_row (address info)) (table st))
     [length (table st) := set_cells info
        (insert_at (length (takeWhile (\<lambda>r. address info < row_key r) (table st)))
           (address_row (address info)) (table st) ! length (table st))]"
proof -
  from inv have ok: "list_all (\<lambda>r. col_address r \<noteq> None) (table st)"
    by (simp add: table_inv_def)
  have t1: "setItem (length (table st)) 0 (text_item (address info))
      (insertRow (length (table st)) (table st)) =
      insert_at (length (takeWhile (\<lambda>r. address info < row_key r) (table st)))
        (address_row (address info)) (table st)"
    using ok by (rule setItem_address_new)
  show ?thesis
    by (simp add: add_device_def Let_def f t1 setItem_cells length_insert_at set_cells_def)
qed

lemma keys_add_device_new:
  assumes inv: "table_inv st" and f: "find_row (address info) (table st) = None"
  shows "map row_key (table (add_device info st)) =
     takeWhile (\<lambda>k. address info < k) (map row_key (table st)) @ [address info] @
     dropWhile (\<lambda>k. address info < k) (map row_key (table st))"
proof -
  let ?p = "length (takeWhile (\<lambda>r. address info < row_key r) (table st))"
  let ?t1 = "insert_at ?p (address_row (address info)) (table st)"
  have p: "?p = length (takeWhile (\<lambda>k. address info < k) (map row_key (table st)))"
    by (simp add: takeWhile_map comp_def)
  have "map row_key (table (add_device info st)) = map row_key ?t1"
    unfolding table_add_device_new [OF inv f]
    by (rule map_update_same) (simp add: row_key_set_cells)
  also have "\<dots> = insert_at ?p (address info) (map row_key (table st))"
    by (simp add: map_insert_at row_key_address_row)
  also have "\<dots> = takeWhile (\<lambda>k. address info < k) (map row_key (table st)) @ [address info] @
      dropWhile (\<lambda>k. address info < k) (map row_key (table st))"
    unfolding p by (rule insert_at_takeWhile)
  finally show ?thesis .
qed

lemma some_add_device_new:
  assumes inv: "table_inv st" and f: "find_row (address info) (table st) = None"
  shows "list_all (\<lambda>r. col_address r \<noteq> None) (table (add_device info st))"
proof -
  let ?p = "length (takeWhile (\<lambda>r. address info < row_key r) (table st))"
  let ?t1 = "insert_at ?p (address_row (address info)) (table st)"
  from inv have ok: "list_all (\<lambda>r. col_address r \<noteq> None) (table st)"
    by (simp add: table_inv_def)
  have ok1: "list_all (\<lambda>r. col_address r \<noteq> None) ?t1"
    using ok col_address_address_row by (rule list_all_insert_at)
  then have "col_address (?t1 ! length (table st)) \<noteq> None"
    by (simp add: list_all_length length_insert_at)
  then have "col_address (set_cells info (?t1 ! length (table st))) \<noteq> None"
    by (simp add: col_address_set_cells)
  with ok1 show ?thesis
    unfolding table_add_device_new [OF inv f] by (rule list_all_update)
qed

lemma table_inv_initial: "table_inv initial_state"
  by (simp add: table_inv_def initial_state_def)

lemma table_inv_clear: "table_inv (clear_results st)"
  by (simp add: table_inv_def clear_results_def)

lemma table_inv_add_device:
  assumes inv: "table_inv st"
  shows "table_inv (add_device info st)"
proof -
  from inv have ok: "list_all (\<lambda>r. col_address r \<noteq> None) (table st)"
    and s: "sorted_wrt (\<lambda>x y. y < x) (map row_key (table st))"
    and ks: "set (map row_key (table st)) = fst ` set (devices st)"
    and m: "list_all (\<lambda>p. address (snd p) = fst p) (devices st)"
    and d: "distinct (map fst (devices st))"
    by (simp_all add: table_inv_def)
  have d': "distinct (map fst (devices (add_device info st)))"
    using d by (simp add: devices_add_device distinct_dict_set)
  have m': "list_all (\<lambda>p. address (snd p) = fst p) (devices (add_device info st))"
    using dict_set_keys_match [of "devices st" info] m
    by (simp add: devices_add_device list_all_iff)
  have kd: "fst ` set (devices (add_device info st)) = insert (address info) (fst ` set (devices st))"
    by (simp add: devices_add_device fst_set_dict_set)
  show ?thesis
  proof (cases "find_row (address info) (table st)")
    case None
    then have n: "address info \<notin> set (map row_key (table st))"
      using ok by (simp add: find_row_None_keys)
    have k': "map row_key (table (add_device info st)) =
        takeWhile (\<lambda>k. address info < k) (map row_key (table st)) @ [address info] @
        dropWhile (\<lambda>k. address info < k) (map row_key (table st))"
      using inv None by (rule keys_add_device_new)
    have ok': "list_all (\<lambda>r. col_address r \<noteq> None) (table (add_device info st))"
      using inv None by (rule some_add_device_new)
    have s': "sorted_wrt (\<lambda>x y. y < x) (map row_key (table (add_device info st)))"
      unfolding k' using s n by (rule sorted_insert_desc)
    have ks': "set (map row_key (table (add_device info st))) =
        fst ` set (devices (add_device info st))"
      unfolding k' kd set_insert_split using ks by simp
    from ok' s' ks' m' d' show ?thesis
      unfolding table_inv_def by blast
  next
    case (Some row)
    then have r: "row < length (table st)"
      and h: "has_address (address info) (table st ! row)"
      using find_row_Some by blast+
    from ok r have "col_address (table st ! row) \<noteq> None"
      by (simp add: list_all_length)
    with h have k: "row_key (table st ! row) = address info"
      by (simp add: has_address_key)
    have t': "table (add_device info st) = (table st)[row := row_items info]"
      using inv Some by (rule table_add_device_present)
    have k': "map row_key (table (add_device info st)) = map row_key (table st)"
      unfolding t' by (rule map_update_same) (simp add: row_key_row_items k)
    have ok': "list_all (\<lambda>r. col_address r \<noteq> None) (table (add_device info st))"
      unfolding t' using ok col_address_row_items by (rule list_all_update)
    have s': "sorted_wrt (\<lambda>x y. y < x) (map row_key (table (add_device info st)))"
      unfolding k' by (rule s)
    from r have "row_key (table st ! row) \<in> set (map row_key (table st))"
      by simp
    with k have "address info \<in> set (map row_key (table st))"
      by simp
    then have "insert (address info) (fst ` set (devices st)) = fst ` set (devices st)"
      using ks by auto
    then have ks': "set (map row_key (table (add_device info st))) =
        fst ` set (devices (add_device info st))"
      unfolding k' kd using ks by simp
    from ok' s' ks' m' d' show ?thesis
      unfolding table_inv_def by blast
  qed
qed

lemma table_inv_foldl: "table_inv st \<Longrightarrow> table_inv (foldl apply_op st ops)"
proof (induction ops arbitrary: st)
  case Nil
  then show ?case by simp
next
  case (Cons x ops)
  then show ?case
    by (cases x) (simp_all add: table_inv_add_device table_inv_clear)
qed

lemma table_inv_run_ops: "table_inv (run_ops ops)"
  by (simp add: run_ops_def table_inv_foldl table_inv_initial)

text \<open>
  C6, as the code has it. In every state reached from the empty table by upserts and
  clears there is one record per address and one row per address: every row has an
  address item, the rows stand in strictly descending order of their addresses (the
  order of the sort indicator), and their addresses are those of the records. An upsert
  for an address that is present keeps the number and the order of the records and of the
  rows, puts the new record where the old one stood and rewrites the row of that address
  in full, leaving all other records and rows as they were. An upsert for a new address
  appends the record to the dictionary and adds one row at the place of the address in the
  order of the rows, which is the end only when the address is smaller than all others.
  An upsert removes no address, and a clear empties both.
\<close>

theorem C6_one_record_per_address:
  assumes "st = run_ops ops"
  shows "distinct (map fst (devices st)) \<and>
         (\<forall>r \<in> set (table st). col_address r \<noteq> None) \<and>
         sorted_wrt (\<lambda>x y. y < x) (map row_key (table st)) \<and>
         distinct (map row_key (table st)) \<and>
         set (map row_key (table st)) = fst ` set (devices st) \<and>
         length (table st) = length (devices st) \<and>
         (address info \<in> fst ` set (devices st) \<longrightarrow>
            map fst (devices (add_device info st)) = map fst (devices st) \<and>
            map row_key (table (add_device info st)) = map row_key (table st) \<and>
            (\<forall>i < length (devices st).
               devices (add_device info st) ! i =
                 (if fst (devices st ! i) = address info then (address info, info)
                  else devices st ! i) \<and>
               table (add_device info st) ! i =
                 (if row_key (table st ! i) = address info then row_items info
                  else table st ! i))) \<and>
         (address info \<notin> fst ` set (devices st) \<longrightarrow>
            devices (add_device info st) = devices st @ [(address info, info)] \<and>
            map row_key (table (add_device info st)) =
              takeWhile (\<lambda>k. address info < k) (map row_key (table st)) @ [address info] @
              dropWhile (\<lambda>k. address info < k) (map row_key (table st))) \<and>
         fst ` set (devices st) \<subseteq> fst ` set (devices (add_device info st)) \<and>
         devices (clear_results st) = [] \<and> table (clear_results st) = []"
proof -
  have inv: "table_inv st"
    using assms by (simp add: table_inv_run_ops)
  from inv have ok: "list_all (\<lambda>r. col_address r \<noteq> None) (table st)"
    and s: "sorted_wrt (\<lambda>x y. y < x) (map row_key (table st))"
    and ks: "set (map row_key (table st)) = fst ` set (devices st)"
    and d: "distinct (map fst (devices st))"
    by (simp_all add: table_inv_def)
  have okb: "\<forall>r \<in> set (table st). col_address r \<noteq> None"
    using ok by (simp add: list_all_iff)
  have dk: "distinct (map row_key (table st))"
    using s by (rule sorted_desc_distinct)
  have len: "length (table st) = length (devices st)"
  proof -
    have "card (set (map row_key (table st))) = card (set (map fst (devices st)))"
      using ks by simp
    then show ?thesis
      using distinct_card [OF dk] distinct_card [OF d] by simp
  qed
  have present: "address info \<in> fst ` set (devices st) \<longrightarrow>
      map fst (devices (add_device info st)) = map fst (devices st) \<and>
      map row_key (table (add_device info st)) = map row_key (table st) \<and>
      (\<forall>i < length (devices st).
         devices (add_device info st) ! i =
           (if fst (devices st ! i) = address info then (address info, info)
            else devices st ! i) \<and>
         table (add_device info st) ! i =
           (if row_key (table st ! i) = address info then row_items info
            else table st ! i))"
  proof
    assume p: "address info \<in> fst ` set (devices st)"
    with ks have "address info \<in> set (map row_key (table st))"
      by simp
    then have "find_row (address info) (table st) \<noteq> None"
      using ok by (simp add: find_row_None_keys)
    then obtain row where f: "find_row (address info) (table st) = Some row"
      by auto
    then have r: "row < length (table st)"
      and h: "has_address (address info) (table st ! row)"
      using find_row_Some by blast+
    from okb r have "col_address (table st ! row) \<noteq> None"
      by simp
    with h have k: "row_key (table st ! row) = address info"
      by (simp add: has_address_key)
    have t': "table (add_device info st) = (table st)[row := row_items info]"
      using inv f by (rule table_add_device_present)
    have keys: "map row_key (table (add_device info st)) = map row_key (table st)"
      unfolding t' by (rule map_update_same) (simp add: row_key_row_items k)
    have kd: "map fst (devices (add_device info st)) = map fst (devices st)"
      using p by (simp add: devices_add_device map_fst_dict_set)
    have nth_t: "table (add_device info st) ! i =
        (if row_key (table st ! i) = address info then row_items info else table st ! i)"
      if i: "i < length (table st)" for i
    proof (cases "i = row")
      case True
      then show ?thesis
        using r k by (simp add: t')
    next
      case False
      have "row_key (table st ! i) \<noteq> address info"
      proof
        assume "row_key (table st ! i) = address info"
        then have "map row_key (table st) ! i = map row_key (table st) ! row"
          using i r k by simp
        then have "i = row"
          using nth_eq_iff_index_eq [OF dk, of i row] i r by simp
        with False show False
          by simp
      qed
      with False show ?thesis
        by (simp add: t')
    qed
    have nth_d: "devices (add_device info st) ! i =
        (if fst (devices st ! i) = address info then (address info, info) else devices st ! i)"
      if "i < length (devices st)" for i
      using dict_set_nth [OF d that] by (simp add: devices_add_device)
    from kd keys nth_t nth_d len
    show "map fst (devices (add_device info st)) = map fst (devices st) \<and>
      map row_key (table (add_device info st)) = map row_key (table st) \<and>
      (\<forall>i < length (devices st).
         devices (add_device info st) ! i =
           (if fst (devices st ! i) = address info then (address info, info)
            else devices st ! i) \<and>
         table (add_device info st) ! i =
           (if row_key (table st ! i) = address info then row_items info
            else table st ! i))"
      by simp
  qed
  have new: "address info \<notin> fst ` set (devices st) \<longrightarrow>
      devices (add_device info st) = devices st @ [(address info, info)] \<and>
      map row_key (table (add_device info st)) =
        takeWhile (\<lambda>k. address info < k) (map row_key (table st)) @ [address info] @
        dropWhile (\<lambda>k. address info < k) (map row_key (table st))"
  proof
    assume n: "address info \<notin> fst ` set (devices st)"
    with ks have "address info \<notin> set (map row_key (table st))"
      by simp
    then have f: "find_row (address info) (table st) = None"
      using ok by (simp add: find_row_None_keys)
    from n have "devices (add_device info st) = devices st @ [(address info, info)]"
      by (simp add: devices_add_device dict_set_new)
    with keys_add_device_new [OF inv f]
    show "devices (add_device info st) = devices st @ [(address info, info)] \<and>
      map row_key (table (add_device info st)) =
        takeWhile (\<lambda>k. address info < k) (map row_key (table st)) @ [address info] @
        dropWhile (\<lambda>k. address info < k) (map row_key (table st))"
      by simp
  qed
  have sub: "fst ` set (devices st) \<subseteq> fst ` set (devices (add_device info st))"
    by (auto simp: devices_add_device fst_set_dict_set)
  have c: "devices (clear_results st) = [] \<and> table (clear_results st) = []"
    by (simp add: clear_results_def)
  from d okb s dk ks len present new sub c show ?thesis
    by blast
qed

subsection \<open>Two devices\<close>

lemma address_samples:
  "address (sample_info r) = ''AA:BB:CC:DD:EE:FF'' \<and> address sample_info_b = ''BB:BB:CC:DD:EE:FF''"
  by (simp add: sample_info_def sample_info_b_def)

lemma address_order: "\<not> ''BB:BB:CC:DD:EE:FF'' < ''AA:BB:CC:DD:EE:FF''"
  by simp

lemma run_ops_one: "run_ops [Upsert info] = add_device info initial_state"
  by (simp add: run_ops_def)

lemma devices_one: "devices (run_ops [Upsert info]) = [(address info, info)]"
  by (simp add: run_ops_one devices_add_device initial_state_def)

lemma table_one: "table (run_ops [Upsert info]) = [row_items info]"
proof -
  have f: "find_row (address info) (table initial_state) = None"
    by (simp add: initial_state_def)
  have t: "table initial_state = []"
    by (simp add: initial_state_def)
  show ?thesis
    using table_add_device_new [OF table_inv_initial f]
    by (simp add: run_ops_one t insert_at_def row_items_def)
qed

lemma table_two:
  "table (add_device sample_info_b (run_ops [Upsert (sample_info r)])) =
     [address_row ''BB:BB:CC:DD:EE:FF'', set_cells sample_info_b (row_items (sample_info r))]"
proof -
  have f: "find_row (address sample_info_b) (table (run_ops [Upsert (sample_info r)])) = None"
    by (simp add: table_one has_address_key col_address_row_items row_key_row_items
          address_samples)
  show ?thesis
    using table_add_device_new [OF table_inv_run_ops f]
    by (simp add: table_one row_key_row_items address_samples address_order insert_at_def)
qed

lemma table_two_again:
  "table (add_device sample_info_b (add_device sample_info_b (run_ops [Upsert (sample_info r)]))) =
     [row_items sample_info_b, set_cells sample_info_b (row_items (sample_info r))]"
proof -
  have inv: "table_inv (add_device sample_info_b (run_ops [Upsert (sample_info r)]))"
    using table_inv_run_ops by (rule table_inv_add_device)
  have f: "find_row (address sample_info_b)
      (table (add_device sample_info_b (run_ops [Upsert (sample_info r)]))) = Some 0"
    by (simp add: table_two has_address_key col_address_address_row row_key_address_row
          address_samples)
  show ?thesis
    using table_add_device_present [OF inv f] by (simp add: table_two)
qed

theorem C6_one_record_per_address_witness:
  "address (sample_info (- 70)) \<in> fst ` set (devices (run_ops [Upsert (sample_info (- 60))])) \<and>
   map row_key (table (add_device (sample_info (- 70)) (run_ops [Upsert (sample_info (- 60))]))) =
     [''AA:BB:CC:DD:EE:FF''] \<and>
   devices (add_device (sample_info (- 70)) (run_ops [Upsert (sample_info (- 60))])) ! 0 =
     (''AA:BB:CC:DD:EE:FF'', sample_info (- 70)) \<and>
   table (add_device (sample_info (- 70)) (run_ops [Upsert (sample_info (- 60))])) ! 0 =
     row_items (sample_info (- 70)) \<and>
   address sample_info_b \<notin> fst ` set (devices (run_ops [Upsert (sample_info (- 60))])) \<and>
   devices (add_device sample_info_b (run_ops [Upsert (sample_info (- 60))])) =
     [(''AA:BB:CC:DD:EE:FF'', sample_info (- 60)), (''BB:BB:CC:DD:EE:FF'', sample_info_b)] \<and>
   map row_key (table (add_device sample_info_b (run_ops [Upsert (sample_info (- 60))]))) =
     [''BB:BB:CC:DD:EE:FF'', ''AA:BB:CC:DD:EE:FF'']"
proof -
  let ?st = "run_ops [Upsert (sample_info (- 60))]"
  have h: "address (sample_info (- 70)) \<in> fst ` set (devices ?st)"
    by (simp add: devices_one address_samples)
  have n: "address sample_info_b \<notin> fst ` set (devices ?st)"
    by (simp add: devices_one address_samples)
  note c = C6_one_record_per_address [OF refl, of "[Upsert (sample_info (- 60))]"]
  from c [of "sample_info (- 70)"] h
  have "map row_key (table (add_device (sample_info (- 70)) ?st)) = map row_key (table ?st) \<and>
    (\<forall>i < length (devices ?st).
       devices (add_device (sample_info (- 70)) ?st) ! i =
         (if fst (devices ?st ! i) = address (sample_info (- 70))
          then (address (sample_info (- 70)), sample_info (- 70)) else devices ?st ! i) \<and>
       table (add_device (sample_info (- 70)) ?st) ! i =
         (if row_key (table ?st ! i) = address (sample_info (- 70))
          then row_items (sample_info (- 70)) else table ?st ! i))"
    by blast
  then have a: "map row_key (table (add_device (sample_info (- 70)) ?st)) = [''AA:BB:CC:DD:EE:FF''] \<and>
    devices (add_device (sample_info (- 70)) ?st) ! 0 = (''AA:BB:CC:DD:EE:FF'', sample_info (- 70)) \<and>
    table (add_device (sample_info (- 70)) ?st) ! 0 = row_items (sample_info (- 70))"
    by (simp add: devices_one table_one row_key_row_items address_samples)
  from c [of sample_info_b] n
  have "devices (add_device sample_info_b ?st) = devices ?st @ [(address sample_info_b, sample_info_b)] \<and>
    map row_key (table (add_device sample_info_b ?st)) =
      takeWhile (\<lambda>k. address sample_info_b < k) (map row_key (table ?st)) @ [address sample_info_b] @
      dropWhile (\<lambda>k. address sample_info_b < k) (map row_key (table ?st))"
    by blast
  then have b: "devices (add_device sample_info_b ?st) =
      [(''AA:BB:CC:DD:EE:FF'', sample_info (- 60)), (''BB:BB:CC:DD:EE:FF'', sample_info_b)] \<and>
    map row_key (table (add_device sample_info_b ?st)) =
      [''BB:BB:CC:DD:EE:FF'', ''AA:BB:CC:DD:EE:FF'']"
    by (simp add: devices_one table_one row_key_row_items address_samples address_order)
  from h n a b show ?thesis
    by blast
qed

text \<open>
  The second of two devices is upserted with the larger address: its record is the last
  of the dictionary, but its row is the first of the table, not one appended at the end.
\<close>

theorem C6_row_position_counterexample:
  "map fst (devices (run_ops [Upsert (sample_info (- 60)), Upsert sample_info_b])) =
     [''AA:BB:CC:DD:EE:FF'', ''BB:BB:CC:DD:EE:FF''] \<and>
   map row_key (table (run_ops [Upsert (sample_info (- 60)), Upsert sample_info_b])) =
     [''BB:BB:CC:DD:EE:FF'', ''AA:BB:CC:DD:EE:FF'']"
proof -
  have r: "run_ops [Upsert (sample_info (- 60)), Upsert sample_info_b] =
      add_device sample_info_b (run_ops [Upsert (sample_info (- 60))])"
    by (simp add: run_ops_def)
  have d: "map fst (devices (add_device sample_info_b (run_ops [Upsert (sample_info (- 60))]))) =
      [''AA:BB:CC:DD:EE:FF'', ''BB:BB:CC:DD:EE:FF'']"
    by (simp add: devices_add_device devices_one address_samples)
  have t: "map row_key (table (add_device sample_info_b (run_ops [Upsert (sample_info (- 60))]))) =
      [''BB:BB:CC:DD:EE:FF'', ''AA:BB:CC:DD:EE:FF'']"
    by (simp add: table_two row_key_address_row row_key_set_cells row_key_row_items
          address_samples)
  from d t show ?thesis
    unfolding r by blast
qed

text \<open>
  C9 at a table that shows one device, for a second device with a larger address. The
  first upsert moves the new row to the top when its address cell is set and then sets
  the other six cells in the last row, that of the first device: the new row has only
  its address, and the row of the first device shows the fields of the second. The
  second upsert finds the row by its address and fills it. The rows after two upserts
  are not the rows after one; the records are.
\<close>

theorem C9_second_upsert_changes_rows:
  "table (add_device sample_info_b (run_ops [Upsert (sample_info (- 60))])) =
     [address_row ''BB:BB:CC:DD:EE:FF'',
      set_cells sample_info_b (row_items (sample_info (- 60)))] \<and>
   table (add_device sample_info_b (add_device sample_info_b
            (run_ops [Upsert (sample_info (- 60))]))) =
     [row_items sample_info_b,
      set_cells sample_info_b (row_items (sample_info (- 60)))] \<and>
   col_name (address_row ''BB:BB:CC:DD:EE:FF'') = None \<and>
   col_name (row_items sample_info_b) = Some (text_item ''Beacon'') \<and>
   row_key (set_cells sample_info_b (row_items (sample_info (- 60)))) = ''AA:BB:CC:DD:EE:FF'' \<and>
   col_name (set_cells sample_info_b (row_items (sample_info (- 60)))) =
     Some (text_item ''Beacon'') \<and>
   table (add_device sample_info_b (add_device sample_info_b
            (run_ops [Upsert (sample_info (- 60))]))) \<noteq>
   table (add_device sample_info_b (run_ops [Upsert (sample_info (- 60))])) \<and>
   devices (add_device sample_info_b (add_device sample_info_b
              (run_ops [Upsert (sample_info (- 60))]))) =
   devices (add_device sample_info_b (run_ops [Upsert (sample_info (- 60))]))"
proof -
  have a: "col_name (address_row ''BB:BB:CC:DD:EE:FF'') = None"
    by (simp add: address_row_def empty_row_def)
  have b: "col_name (row_items sample_info_b) = Some (text_item ''Beacon'')"
    by (simp add: row_items_def set_cells_def sample_info_b_def)
  have c: "row_key (set_cells sample_info_b (row_items (sample_info (- 60)))) = ''AA:BB:CC:DD:EE:FF''"
    by (simp add: row_key_set_cells row_key_row_items address_samples)
  have d: "col_name (set_cells sample_info_b (row_items (sample_info (- 60)))) =
      Some (text_item ''Beacon'')"
    by (simp add: set_cells_def sample_info_b_def)
  from a b have e: "row_items sample_info_b \<noteq> address_row ''BB:BB:CC:DD:EE:FF''"
    by auto
  show ?thesis
    using a b c d e
    by (simp add: table_two table_two_again devices_add_device_twice)
qed

section \<open>Export\<close>













section \<open>Decode failures in the stream\<close>

lemma scan_loop_all:
  "list_all ev_scanning stream \<Longrightarrow>
   scan_loop si fe reg stream =
     concat (map (\<lambda>ev. process_device si fe reg (ev_now ev) (ev_device ev) (ev_adv ev)) stream)"
  by (induction stream) auto

lemma emitted_append: "emitted (xs @ ys) = emitted xs @ emitted ys"
  by (induction xs rule: emitted.induct) auto

text \<open>
  C7, as the code has it. While no stop is requested, the effects of a scan are those of
  the events one after the other, whatever happens in each. An event whose decoding
  raises yields no record: the detailed report (error type, message, context with the
  device address, stack trace, platform probe output) is printed to the terminal, and one
  error signal is emitted whose text holds the device address and the error message; an
  event that decodes yields its record. The callback scanner handles each event the same
  way.
\<close>

theorem C7_skip_and_continue:
  assumes "list_all ev_scanning stream"
  shows "start_scanning si fe reg None stream =
           Emit ScanStarted #
           concat (map (\<lambda>ev. process_device si fe reg (ev_now ev) (ev_device ev) (ev_adv ev)) stream) @
           [Emit ScanStopped] \<and>
         (process_device_body reg now device adv = Inl e \<longrightarrow>
            process_device si fe reg now device adv =
              [Print (''BLE DEVICE PROCESSING ERROR (Terminal):'' @ [CHR 0x0A] @
                      py_join [CHR 0x0A]
                        [''=== DETAILED ERROR INFORMATION ==='',
                         ''Error Type: '' @ exn_type e,
                         ''Error Message: '' @ exn_msg e,
                         ''Context: '' @ ''BLE Scanner Worker - process_device for device '' @
                           dev_address device,
                         [], ''=== STACK TRACE ==='', fe e, [], si]),
               Emit (ErrorOccurred
                      (''Error processing device '' @ dev_address device @ '': '' @ exn_msg e @
                       [CHR 0x0A, CHR 0x0A] @ ''See terminal for detailed error information.''))]) \<and>
         (process_device_body reg now device adv = Inr info \<longrightarrow>
            process_device si fe reg now device adv = [Emit (DeviceFound info)]) \<and>
         (detection_callback_body enum reg now device adv = Inl e \<longrightarrow>
            detection_callback si fe enum reg now device adv =
              [Print (''BLE DEVICE PROCESSING ERROR (Terminal):'' @ [CHR 0x0A] @
                      py_join [CHR 0x0A]
                        [''=== DETAILED ERROR INFORMATION ==='',
                         ''Error Type: '' @ exn_type e,
                         ''Error Message: '' @ exn_msg e,
                         ''Context: '' @ ''BLE Scanner Worker - detection_callback for device '' @
                           dev_address device,
                         [], ''=== STACK TRACE ==='', fe e, [], si]),
               Emit (ErrorOccurred
                      (''Error processing device '' @ dev_address device @ '': '' @ exn_msg e @
                       [CHR 0x0A, CHR 0x0A] @ ''See terminal for detailed error information.''))]) \<and>
         (detection_callback_body enum reg now device adv = Inr info \<longrightarrow>
            detection_callback si fe enum reg now device adv = [Emit (DeviceFound info)])"
proof -
  have "start_scanning si fe reg None stream =
           Emit ScanStarted #
           concat (map (\<lambda>ev. process_device si fe reg (ev_now ev) (ev_device ev) (ev_adv ev)) stream) @
           [Emit ScanStopped]"
    using assms by (simp add: start_scanning_def scan_loop_all)
  then show ?thesis
    by (simp add: process_device_def detection_callback_def get_detailed_error_info_def
          see_terminal_def)
qed

lemma process_device_body_flaky:
  "process_device_body flaky_registry sample_now sample_device (sample_adv r) =
     Inr (sample_info (rssi_field r))"
  by (simp add: process_device_body_def lookup_manufacturer_def flaky_registry_def
        sample_registry_def sample_device_def sample_adv_def sample_info_def startswith_def
        fmt_04X_76 manufacturer_id_field_def name_field_def strftime_HMS_sample convert_uuid_180f)

lemma process_device_body_bad:
  "process_device_body flaky_registry sample_now sample_device bad_adv =
     Inl (Exn ''KeyError'' ''39321'')"
  by (simp add: process_device_body_def lookup_manufacturer_def flaky_registry_def bad_adv_def)

lemma dev_address_sample: "dev_address sample_device = ''AA:BB:CC:DD:EE:FF''"
  by (simp add: sample_device_def)

theorem C7_skip_and_continue_witness:
  "list_all ev_scanning sample_stream \<and>
   emitted (start_scanning probe_a no_traceback flaky_registry None sample_stream) =
     [ScanStarted,
      DeviceFound (sample_info (- 60)),
      ErrorOccurred (''Error processing device AA:BB:CC:DD:EE:FF: 39321'' @
                     [CHR 0x0A, CHR 0x0A] @ ''See terminal for detailed error information.''),
      DeviceFound (sample_info (- 70)),
      ScanStopped]"
proof -
  have h: "list_all ev_scanning sample_stream"
    by (simp add: sample_stream_def)
  have g: "process_device probe_a no_traceback flaky_registry sample_now sample_device
      (sample_adv r) = [Emit (DeviceFound (sample_info (rssi_field r)))]" for r
    using C7_skip_and_continue [OF h, of probe_a no_traceback flaky_registry sample_now
        sample_device "sample_adv r" _ "sample_info (rssi_field r)"]
    by (simp add: process_device_body_flaky)
  have b: "emitted (process_device probe_a no_traceback flaky_registry sample_now sample_device
      bad_adv) =
      [ErrorOccurred (''Error processing device AA:BB:CC:DD:EE:FF: 39321'' @
                     [CHR 0x0A, CHR 0x0A] @ ''See terminal for detailed error information.'')]"
    using C7_skip_and_continue [OF h, of probe_a no_traceback flaky_registry sample_now
        sample_device bad_adv "Exn ''KeyError'' ''39321''"]
    by (simp add: process_device_body_bad dev_address_sample)
  have "emitted (start_scanning probe_a no_traceback flaky_registry None sample_stream) =
      emitted (Emit ScanStarted #
        concat (map (\<lambda>ev. process_device probe_a no_traceback flaky_registry
                      (ev_now ev) (ev_device ev) (ev_adv ev)) sample_stream) @
        [Emit ScanStopped])"
    using C7_skip_and_continue [OF h, of probe_a no_traceback flaky_registry]
    by simp
  also have "\<dots> = emitted (Emit ScanStarted #
      (Emit (DeviceFound (sample_info (- 60))) #
       process_device probe_a no_traceback flaky_registry sample_now sample_device bad_adv) @
      [Emit (DeviceFound (sample_info (- 70))), Emit ScanStopped])"
    by (simp add: sample_stream_def g rssi_field_def)
  finally show ?thesis
    using h b by (simp add: emitted_append)
qed

text \<open>
  The emitted signal is the same text for a \<open>KeyError\<close> under one probe output and a
  \<open>ValueError\<close> under another: it carries the address and the message, neither the error
  kind nor the probe output.
\<close>

theorem C7_signal_counterexample:
  "probe_a \<noteq> probe_b \<and>
   emitted (process_device probe_a no_traceback key_error_registry sample_now sample_device
              (sample_adv None)) =
     [ErrorOccurred (''Error processing device AA:BB:CC:DD:EE:FF: boom'' @
                     [CHR 0x0A, CHR 0x0A] @ ''See terminal for detailed error information.'')] \<and>
   emitted (process_device probe_b no_traceback value_error_registry sample_now sample_device
              (sample_adv None)) =
     [ErrorOccurred (''Error processing device AA:BB:CC:DD:EE:FF: boom'' @
                     [CHR 0x0A, CHR 0x0A] @ ''See terminal for detailed error information.'')]"
  by (simp add: process_device_def process_device_body_def lookup_manufacturer_def
        key_error_registry_def value_error_registry_def sample_adv_def sample_device_def
        see_terminal_def probe_a_def probe_b_def)

end
